theory Spec2Isabelle
  imports Main "HOL-Library.Sublist"
begin

section \<open>JavaScript values\<close>

text \<open>
  The streaming client of \<^verbatim>\<open>frontend/src/lib/api.ts\<close> works on the values that
  \<^verbatim>\<open>JSON.parse\<close> and \<^verbatim>\<open>res.json()\<close> hand to it, typed \<^verbatim>\<open>any\<close>: null, booleans,
  numbers, strings, arrays and objects. Strings are lists of code units (here the 8-bit
  ones). The number type is a parameter: the functions below only ask a number whether it
  is truthy and for its string form, and both questions are answered by the runtime.
  An object is the list of its own properties in source order; reading a property takes
  the last entry of that name, as \<^verbatim>\<open>JSON.parse\<close> keeps the last duplicate.
\<close>

datatype 'n json =
    JNull
  | JBool bool
  | JNumber 'n
  | JString string
  | JArray "'n json list"
  | JObject "(string \<times> 'n json) list"

text \<open>
  What the platform supplies: \<^verbatim>\<open>JSON.parse\<close> (\<open>None\<close> when it throws SyntaxError),
  \<^verbatim>\<open>ToBoolean\<close> on numbers and \<^verbatim>\<open>Number.prototype.toString\<close>.
\<close>

record 'n runtime =
  JSON_parse :: "string \<Rightarrow> 'n json option"
  Number_truthy :: "'n \<Rightarrow> bool"
  Number_toString :: "'n \<Rightarrow> string"

text \<open>
  A thrown value is an instance of \<^verbatim>\<open>Error\<close> with its message, or anything else.
\<close>

datatype thrown = ErrorInstance string | NonError

text \<open>\<^verbatim>\<open>ToBoolean\<close>: objects and arrays are always truthy, the empty string is not.\<close>

fun truthy :: "'n runtime \<Rightarrow> 'n json \<Rightarrow> bool" where
  "truthy rt JNull = False"
| "truthy rt (JBool b) = b"
| "truthy rt (JNumber n) = Number_truthy rt n"
| "truthy rt (JString s) = (s \<noteq> [])"
| "truthy rt (JArray xs) = True"
| "truthy rt (JObject kvs) = True"

text \<open>
  \<^verbatim>\<open>v.k\<close> for a property name \<open>k\<close> that no prototype defines (\<^verbatim>\<open>error\<close>, \<^verbatim>\<open>detail\<close>):
  \<open>None\<close> is the TypeError of reading a property of null, \<open>Some None\<close> is
  \<^verbatim>\<open>undefined\<close>.
\<close>

fun get_property :: "'n json \<Rightarrow> string \<Rightarrow> 'n json option option" where
  "get_property JNull k = None"
| "get_property (JObject kvs) k = Some (map_of (rev kvs) k)"
| "get_property v k = Some None"

text \<open>\<^verbatim>\<open>v || d\<close>, where \<open>v\<close> may be \<^verbatim>\<open>undefined\<close>.\<close>

fun or_default :: "'n runtime \<Rightarrow> 'n json option \<Rightarrow> 'n json \<Rightarrow> 'n json" where
  "or_default rt None d = d"
| "or_default rt (Some v) d = (if truthy rt v then v else d)"

fun join :: "string \<Rightarrow> string list \<Rightarrow> string" where
  "join sep [] = []"
| "join sep [x] = x"
| "join sep (x # y # ys) = x @ sep @ join sep (y # ys)"

text \<open>
  \<^verbatim>\<open>ToString\<close>, as the \<^verbatim>\<open>Error\<close> constructor applies it to its argument. An array is
  joined with commas, null elements as the empty string. A plain object gives
  \<^verbatim>\<open>[object Object]\<close>, unless it has an own property \<^verbatim>\<open>toString\<close>: a parsed value
  is never callable, so the conversion to a primitive throws TypeError (\<open>None\<close>).
\<close>

fun ToString :: "'n runtime \<Rightarrow> 'n json \<Rightarrow> string option" where
  "ToString rt JNull = Some ''null''"
| "ToString rt (JBool b) = Some (if b then ''true'' else ''false'')"
| "ToString rt (JNumber n) = Some (Number_toString rt n)"
| "ToString rt (JString s) = Some s"
| "ToString rt (JArray xs) =
     map_option (join '','')
       (those (map (\<lambda>x. if x = JNull then Some [] else ToString rt x) xs))"
| "ToString rt (JObject kvs) =
     (if ''toString'' \<in> fst ` set kvs then None else Some ''[object Object]'')"

text \<open>
  \<^verbatim>\<open>new Error(v)\<close> for a defined \<open>v\<close>; the message of the TypeError is the engine's
  (V8's wording here).
\<close>

definition new_Error :: "'n runtime \<Rightarrow> 'n json \<Rightarrow> thrown" where
  "new_Error rt v =
     (case ToString rt v of
        None \<Rightarrow> ErrorInstance ''Cannot convert object to primitive value''
      | Some m \<Rightarrow> ErrorInstance m)"

definition TypeError_null :: "string \<Rightarrow> thrown" where
  "TypeError_null k =
     ErrorInstance (''Cannot read properties of null (reading '' @ [CHR 0x27] @ k @ [CHR 0x27] @ '')'')"

section \<open>String operations\<close>

text \<open>
  \<^verbatim>\<open>s.split(sep)\<close>: the pieces between the non-overlapping occurrences of \<open>sep\<close>,
  found from the left. An empty separator splits into code units.
\<close>

function js_split :: "string \<Rightarrow> string \<Rightarrow> string list" where
  "js_split [] s = map (\<lambda>c. [c]) s"
| "js_split (a # as) [] = [[]]"
| "js_split (a # as) (c # cs) =
     (if prefix (a # as) (c # cs)
      then [] # js_split (a # as) (drop (length (a # as)) (c # cs))
      else (case js_split (a # as) cs of
              [] \<Rightarrow> [[c]]
            | p # ps \<Rightarrow> (c # p) # ps))"
  by pat_completeness auto
termination
  by (relation "measure (\<lambda>(sep, s). length s)") auto

text \<open>
  The white space and line terminators that \<^verbatim>\<open>trim\<close> strips, among the 8-bit code
  units: TAB, LF, VT, FF, CR, SP, NBSP.
\<close>

definition is_space :: "char \<Rightarrow> bool" where
  "is_space c = (of_char c \<in> {9, 10, 11, 12, 13, 32, 160 :: nat})"

definition trim :: "string \<Rightarrow> string" where
  "trim s = rev (dropWhile is_space (rev (dropWhile is_space s)))"

text \<open>\<^verbatim>\<open>events.pop() || ""\<close>: the last piece, and \<^verbatim>\<open>""\<close> when there is none.\<close>

definition pop_or_empty :: "string list \<Rightarrow> string" where
  "pop_or_empty events = (if events = [] then [] else last events)"

section \<open>uploadReportStreaming\<close>

text \<open>
  The callbacks are the caller's code. Each one takes its argument and the caller's
  state, and gives the state back together with the value it threw, if any.
\<close>

record ('n, 's) callbacks =
  onStep :: "'n json \<Rightarrow> 's \<Rightarrow> 's \<times> thrown option"
  onDone :: "'n json \<Rightarrow> 's \<Rightarrow> 's \<times> thrown option"
  onError :: "'n json \<Rightarrow> 's \<Rightarrow> 's \<times> thrown option"

text \<open>
  The transport. \<^verbatim>\<open>fetch\<close> rejects or resolves with a response; \<^verbatim>\<open>res.json()\<close>
  rejects (\<open>None\<close>) or resolves with a value; \<^verbatim>\<open>res.body\<close> is null or a stream whose
  reader delivers text chunks (each \<^verbatim>\<open>value\<close> as the streaming \<^verbatim>\<open>TextDecoder\<close> has
  decoded it) and then either reports \<^verbatim>\<open>done\<close> or rejects. The reading loop ends
  when the reader does, and only then: a reader is given by the finitely many chunks it
  delivers before that, and a stream that never ends is not a value of this type.
\<close>

record reader =
  chunks :: "string list"
  ending :: "thrown option"

record 'n response =
  ok :: bool
  json :: "'n json option"
  body :: "reader option"

datatype 'n fetch_result = Rejects thrown | Resolves "'n response"

text \<open>The inner loop over the lines of one event (api.ts, lines 165-171).\<close>

fun scan_lines :: "string list \<Rightarrow> string \<times> string \<Rightarrow> string \<times> string" where
  "scan_lines [] (eventType, eventData) = (eventType, eventData)"
| "scan_lines (line # lines) (eventType, eventData) =
     (if prefix ''event: '' line then scan_lines lines (drop 7 line, eventData)
      else if prefix ''data: '' line then scan_lines lines (eventType, drop 6 line)
      else scan_lines lines (eventType, eventData))"

definition parse_frame :: "string \<Rightarrow> string \<times> string" where
  "parse_frame event = scan_lines (js_split ''\<newline>'' event) ([], [])"

text \<open>
  The body of the \<^verbatim>\<open>try\<close> block (lines 176-188). The message of the SyntaxError is the
  engine's; the \<^verbatim>\<open>catch\<close> has no binding and never reads it.
\<close>

definition try_block ::
  "'n runtime \<Rightarrow> ('n, 's) callbacks \<Rightarrow> string \<Rightarrow> string \<Rightarrow> 's \<Rightarrow> 's \<times> thrown option" where
  "try_block rt cb eventType eventData s =
     (case JSON_parse rt eventData of
        None \<Rightarrow> (s, Some (ErrorInstance ''Unexpected token''))
      | Some parsed \<Rightarrow>
          if eventType = ''step'' then onStep cb parsed s
          else if eventType = ''done'' then onDone cb parsed s
          else if eventType = ''error'' then
            (case get_property parsed ''error'' of
               None \<Rightarrow> (s, Some (TypeError_null ''error''))
             | Some v \<Rightarrow> onError cb (or_default rt v (JString ''Unknown error'')) s)
          else (s, None))"

text \<open>\<^verbatim>\<open>catch { }\<close>: whatever was thrown is dropped, the state stays as it was left.\<close>

definition catch_skip :: "'s \<times> thrown option \<Rightarrow> 's" where
  "catch_skip r = fst r"

text \<open>One iteration of \<^verbatim>\<open>for (const event of events)\<close> (lines 158-192).\<close>

definition process_event ::
  "'n runtime \<Rightarrow> ('n, 's) callbacks \<Rightarrow> string \<Rightarrow> 's \<Rightarrow> 's" where
  "process_event rt cb event s =
     (if trim event = [] then s
      else
        (case parse_frame event of (eventType, eventData) \<Rightarrow>
           if eventData = [] then s
           else catch_skip (try_block rt cb eventType eventData s)))"

fun for_events ::
  "'n runtime \<Rightarrow> ('n, 's) callbacks \<Rightarrow> string list \<Rightarrow> 's \<Rightarrow> 's" where
  "for_events rt cb [] s = s"
| "for_events rt cb (event # events) s = for_events rt cb events (process_event rt cb event s)"

text \<open>
  Lines 152-156: the chunk is appended to the buffer, the buffer is split at blank lines,
  the last piece is taken off as the new buffer and the pieces before it are the events of
  this round.
\<close>

definition ingest :: "string \<Rightarrow> string \<Rightarrow> string list \<times> string" where
  "ingest buffer chunk =
     (let buffer1 = buffer @ chunk;
          events = js_split ''\<newline>\<newline>'' buffer1
      in (butlast events, pop_or_empty events))"

text \<open>
  The \<^verbatim>\<open>while (true)\<close> loop (lines 148-193), over the chunks the reader still has to
  deliver. At \<^verbatim>\<open>done\<close> the loop is left and the buffer dropped; a rejected
  \<^verbatim>\<open>read\<close> is thrown to the caller.
\<close>

fun read_loop ::
  "'n runtime \<Rightarrow> ('n, 's) callbacks \<Rightarrow> string \<Rightarrow> string list \<Rightarrow> thrown option \<Rightarrow> 's
    \<Rightarrow> 's \<times> thrown option" where
  "read_loop rt cb buffer [] fin s = (s, fin)"
| "read_loop rt cb buffer (chunk # rest) fin s =
     (case ingest buffer chunk of
        (events, buffer2) \<Rightarrow> read_loop rt cb buffer2 rest fin (for_events rt cb events s))"

text \<open>
  All the events that the rounds of the loop hand to \<^verbatim>\<open>for (const event of events)\<close>,
  in order, and the buffer that is left when the reader reports \<^verbatim>\<open>done\<close>.
\<close>

fun ingest_chunks :: "string \<Rightarrow> string list \<Rightarrow> string list \<times> string" where
  "ingest_chunks buffer [] = ([], buffer)"
| "ingest_chunks buffer (chunk # rest) =
     (case ingest buffer chunk of
        (events, buffer2) \<Rightarrow>
          (case ingest_chunks buffer2 rest of
             (later, buffer3) \<Rightarrow> (events @ later, buffer3)))"

definition uploadReportStreaming ::
  "'n runtime \<Rightarrow> 'n fetch_result \<Rightarrow> ('n, 's) callbacks \<Rightarrow> 's \<Rightarrow> 's \<times> thrown option" where
  "uploadReportStreaming rt fetch cb s =
     (case fetch of
        Rejects e \<Rightarrow> (s, Some e)
      | Resolves res \<Rightarrow>
          if \<not> ok res then
            (let err = (case json res of
                          None \<Rightarrow> JObject [(''detail'', JString ''Upload failed'')]
                        | Some v \<Rightarrow> v)
             in case get_property err ''detail'' of
                  None \<Rightarrow> (s, Some (TypeError_null ''detail''))
                | Some d \<Rightarrow> (s, Some (new_Error rt (or_default rt d (JString ''Upload failed'')))))
          else
            (case body res of
               None \<Rightarrow> (s, Some (ErrorInstance ''Streaming not supported''))
             | Some r \<Rightarrow> read_loop rt cb [] (chunks r) (ending r) s))"

section \<open>The upload page\<close>

datatype UploadState = Idle | Uploading | AgentRunning | Done | Error

text \<open>
  The state of \<^verbatim>\<open>UploadPage\<close>: one field for each \<^verbatim>\<open>useState\<close>. A file is
  represented by its name; \<^verbatim>\<open>doneResult\<close> and \<^verbatim>\<open>errorMessage\<close> hold whatever value
  the callbacks are given.
\<close>

record 'n page =
  state :: UploadState
  "file" :: "string option"
  dragOver :: bool
  preferences :: "string list"
  steps :: "'n json list"
  doneResult :: "'n json"
  errorMessage :: "'n json"

definition initial :: "'n page" where
  "initial = \<lparr>state = Idle, file = None, dragOver = False, preferences = [],
              steps = [], doneResult = JNull, errorMessage = JString []\<rparr>"

definition reset :: "'n page \<Rightarrow> 'n page" where
  "reset p = p\<lparr>state := Idle, file := None, steps := [], doneResult := JNull,
               errorMessage := JString []\<rparr>"

text \<open>The three callbacks that \<^verbatim>\<open>handleUpload\<close> passes; none of them throws.\<close>

definition page_callbacks :: "('n, 'n page) callbacks" where
  "page_callbacks =
     \<lparr>onStep = (\<lambda>step p. (p\<lparr>steps := steps p @ [step]\<rparr>, None)),
      onDone = (\<lambda>result p. (p\<lparr>doneResult := result, state := Done\<rparr>, None)),
      onError = (\<lambda>error p. (p\<lparr>errorMessage := error, state := Error\<rparr>, None))\<rparr>"

text \<open>The first five statements of \<^verbatim>\<open>handleUpload\<close> (lines 335-339).\<close>

definition begin_attempt :: "string \<Rightarrow> 'n page \<Rightarrow> 'n page" where
  "begin_attempt selectedFile p =
     p\<lparr>file := Some selectedFile, state := Uploading, steps := [], doneResult := JNull,
       errorMessage := JString []\<rparr>"

text \<open>
  \<^verbatim>\<open>handleUpload\<close>; the 400 ms pause between \<^verbatim>\<open>uploading\<close> and
  \<^verbatim>\<open>agent-running\<close> has no effect on the state and is left out.
\<close>

definition handleUpload ::
  "'n runtime \<Rightarrow> 'n fetch_result \<Rightarrow> string \<Rightarrow> 'n page \<Rightarrow> 'n page" where
  "handleUpload rt fetch selectedFile p =
     (case uploadReportStreaming rt fetch page_callbacks
             ((begin_attempt selectedFile p)\<lparr>state := AgentRunning\<rparr>) of
        (p', None) \<Rightarrow> p'
      | (p', Some err) \<Rightarrow>
          p'\<lparr>errorMessage :=
                JString (case err of ErrorInstance m \<Rightarrow> m | NonError \<Rightarrow> ''Agent failed''),
             state := Error\<rparr>)"

section \<open>Observing the handlers\<close>

text \<open>
  Callbacks that do nothing but log their own invocation, in order: the state they thread
  is the list of calls made so far.
\<close>

datatype 'n call = StepCall "'n json" | DoneCall "'n json" | ErrorCall "'n json"

definition recording :: "('n, 'n call list) callbacks" where
  "recording =
     \<lparr>onStep = (\<lambda>v calls. (calls @ [StepCall v], None)),
      onDone = (\<lambda>v calls. (calls @ [DoneCall v], None)),
      onError = (\<lambda>v calls. (calls @ [ErrorCall v], None))\<rparr>"

fun is_terminal :: "'n call \<Rightarrow> bool" where
  "is_terminal (StepCall v) = False"
| "is_terminal (DoneCall v) = True"
| "is_terminal (ErrorCall v) = True"

text \<open>The calls that one frame causes, taken alone.\<close>

definition calls_of :: "'n runtime \<Rightarrow> string \<Rightarrow> 'n call list" where
  "calls_of rt event = process_event rt recording event []"

text \<open>The same callbacks with whatever they throw taken away.\<close>

definition quiet :: "('n, 's) callbacks \<Rightarrow> ('n, 's) callbacks" where
  "quiet cb =
     \<lparr>onStep = (\<lambda>v s. (fst (onStep cb v s), None)),
      onDone = (\<lambda>v s. (fst (onDone cb v s), None)),
      onError = (\<lambda>v s. (fst (onError cb v s), None))\<rparr>"

section \<open>The parser's contract in the specification's words\<close>

text \<open>
  The last line that begins with the label, without the label; the empty string when no
  line begins with it.
\<close>

definition last_labelled :: "string \<Rightarrow> string list \<Rightarrow> string" where
  "last_labelled label lines =
     (case filter (prefix label) lines of
        [] \<Rightarrow> []
      | l # ls \<Rightarrow> drop (length label) (last (l # ls)))"

section \<open>A concrete runtime for the examples\<close>

text \<open>
  The theorems below hold for every runtime. The examples are evaluated on this one,
  whose numbers are the integers. Its parser reads JSON texts made of objects, arrays,
  strings (with the two-character escapes), integers of at most fifteen digits,
  \<^verbatim>\<open>true\<close>, \<^verbatim>\<open>false\<close> and \<^verbatim>\<open>null\<close>, and rejects what is not JSON among the texts
  it is given here. Numbers with a fraction or an exponent and \<^verbatim>\<open>\u\<close> escapes are
  outside of it (it answers \<open>None\<close>), so the examples do not use them.
\<close>

definition json_ws :: "char \<Rightarrow> bool" where
  "json_ws c = (of_char c \<in> {9, 10, 13, 32 :: nat})"

definition skip_ws :: "string \<Rightarrow> string" where
  "skip_ws s = dropWhile json_ws s"

definition unescape :: "char \<Rightarrow> char option" where
  "unescape e =
     (if e = CHR 0x22 then Some (CHR 0x22)
      else if e = CHR 0x5C then Some (CHR 0x5C)
      else if e = CHR ''/'' then Some (CHR ''/'')
      else if e = CHR ''b'' then Some (CHR 0x08)
      else if e = CHR ''f'' then Some (CHR 0x0C)
      else if e = CHR ''n'' then Some (CHR 0x0A)
      else if e = CHR ''r'' then Some (CHR 0x0D)
      else if e = CHR ''t'' then Some (CHR 0x09)
      else None)"

text \<open>The characters of a string after its opening quote, and what follows the closing one.\<close>

fun parse_chars :: "string \<Rightarrow> (string \<times> string) option" where
  "parse_chars [] = None"
| "parse_chars [c] = (if c = CHR 0x22 then Some ([], []) else None)"
| "parse_chars (c # e # cs) =
     (if c = CHR 0x22 then Some ([], e # cs)
      else if c = CHR 0x5C then
        (case unescape e of
           None \<Rightarrow> None
         | Some u \<Rightarrow> map_option (\<lambda>(str, r). (u # str, r)) (parse_chars cs))
      else if (of_char c :: nat) < 32 then None
      else map_option (\<lambda>(str, r). (c # str, r)) (parse_chars (e # cs)))"

definition is_digit :: "char \<Rightarrow> bool" where
  "is_digit c = (48 \<le> (of_char c :: nat) \<and> (of_char c :: nat) \<le> 57)"

definition digits_value :: "string \<Rightarrow> int" where
  "digits_value ds = foldl (\<lambda>acc c. 10 * acc + (int (of_char c) - 48)) 0 ds"

text \<open>An integer literal: an optional minus sign, then \<^verbatim>\<open>0\<close> or digits not led by \<^verbatim>\<open>0\<close>.\<close>

definition parse_number :: "string \<Rightarrow> (int \<times> string) option" where
  "parse_number s =
     (let neg = (s \<noteq> [] \<and> hd s = CHR ''-'');
          t = (if neg then tl s else s);
          ds = takeWhile is_digit t;
          r = dropWhile is_digit t
      in if ds = [] \<or> 15 < length ds \<or> (1 < length ds \<and> hd ds = CHR ''0'') then None
         else if r \<noteq> [] \<and> hd r \<in> {CHR ''.'', CHR ''e'', CHR ''E''} then None
         else Some (if neg then - digits_value ds else digits_value ds, r))"

fun parse_value :: "nat \<Rightarrow> string \<Rightarrow> (int json \<times> string) option"
  and parse_elements :: "nat \<Rightarrow> string \<Rightarrow> (int json list \<times> string) option"
  and parse_members :: "nat \<Rightarrow> string \<Rightarrow> ((string \<times> int json) list \<times> string) option" where
  "parse_value 0 s = None"
| "parse_value (Suc n) s =
     (case skip_ws s of
        [] \<Rightarrow> None
      | c # cs \<Rightarrow>
          if c = CHR ''{'' then
            (case skip_ws cs of
               [] \<Rightarrow> None
             | d # ds \<Rightarrow>
                 if d = CHR ''}'' then Some (JObject [], ds)
                 else map_option (\<lambda>(kvs, r). (JObject kvs, r)) (parse_members n cs))
          else if c = CHR ''['' then
            (case skip_ws cs of
               [] \<Rightarrow> None
             | d # ds \<Rightarrow>
                 if d = CHR '']'' then Some (JArray [], ds)
                 else map_option (\<lambda>(vs, r). (JArray vs, r)) (parse_elements n cs))
          else if c = CHR 0x22 then map_option (\<lambda>(str, r). (JString str, r)) (parse_chars cs)
          else if prefix ''true'' (c # cs) then Some (JBool True, drop 4 (c # cs))
          else if prefix ''false'' (c # cs) then Some (JBool False, drop 5 (c # cs))
          else if prefix ''null'' (c # cs) then Some (JNull, drop 4 (c # cs))
          else map_option (\<lambda>(i, r). (JNumber i, r)) (parse_number (c # cs)))"
| "parse_elements 0 s = None"
| "parse_elements (Suc n) s =
     (case parse_value n s of
        None \<Rightarrow> None
      | Some (v, r) \<Rightarrow>
          (case skip_ws r of
             [] \<Rightarrow> None
           | d # ds \<Rightarrow>
               if d = CHR '','' then map_option (\<lambda>(vs, r'). (v # vs, r')) (parse_elements n ds)
               else if d = CHR '']'' then Some ([v], ds)
               else None))"
| "parse_members 0 s = None"
| "parse_members (Suc n) s =
     (case skip_ws s of
        [] \<Rightarrow> None
      | q # r0 \<Rightarrow>
          if q \<noteq> CHR 0x22 then None
          else
            (case parse_chars r0 of
               None \<Rightarrow> None
             | Some (k, r1) \<Rightarrow>
                 (case skip_ws r1 of
                    [] \<Rightarrow> None
                  | c # r2 \<Rightarrow>
                      if c \<noteq> CHR '':'' then None
                      else
                        (case parse_value n r2 of
                           None \<Rightarrow> None
                         | Some (v, r3) \<Rightarrow>
                             (case skip_ws r3 of
                                [] \<Rightarrow> None
                              | d # ds \<Rightarrow>
                                  if d = CHR '','' then
                                    map_option (\<lambda>(kvs, r'). ((k, v) # kvs, r')) (parse_members n ds)
                                  else if d = CHR ''}'' then Some ([(k, v)], ds)
                                  else None)))))"

text \<open>One value, white space around it, nothing else. The fuel covers every nesting.\<close>

definition JSON_parse0 :: "string \<Rightarrow> int json option" where
  "JSON_parse0 text =
     (case parse_value (2 * length text + 2) text of
        None \<Rightarrow> None
      | Some (v, r) \<Rightarrow> if skip_ws r = [] then Some v else None)"

function show_nat :: "nat \<Rightarrow> string" where
  "show_nat n =
     (if n < 10 then [char_of (48 + n)]
      else show_nat (n div 10) @ [char_of (48 + n mod 10)])"
  by pat_completeness auto
termination
  by (relation "measure (\<lambda>n. n)") auto

declare show_nat.simps [simp del]

definition show_int :: "int \<Rightarrow> string" where
  "show_int i = (if i < 0 then CHR ''-'' # show_nat (nat (- i)) else show_nat (nat i))"

definition runtime0 :: "int runtime" where
  "runtime0 =
     \<lparr>JSON_parse = JSON_parse0, Number_truthy = (\<lambda>i. i \<noteq> 0), Number_toString = show_int\<rparr>"

text \<open>A success response whose body delivers the given chunks and then ends.\<close>

definition streamed :: "string list \<Rightarrow> int fetch_result" where
  "streamed cs = Resolves \<lparr>ok = True, json = None, body = Some \<lparr>chunks = cs, ending = None\<rparr>\<rparr>"

section \<open>Splitting a string\<close>

lemma js_split_nonempty: "sep \<noteq> [] \<Longrightarrow> js_split sep s \<noteq> []"
  by (induction sep s rule: js_split.induct) (auto split: list.splits)

lemma js_split_short: "length s < length sep \<Longrightarrow> js_split sep s = [s]"
proof (induction sep s rule: js_split.induct)
  case (3 a as c cs)
  have np: "\<not> prefix (a # as) (c # cs)"
    using "3.prems" by (auto dest: prefix_length_le)
  have "js_split (a # as) cs = [cs]"
    using "3.IH"(2)[OF np] "3.prems" by simp
  with np show ?case by simp
qed simp_all

lemma js_split_single: "js_split (a # as) s = [p] \<Longrightarrow> p = s"
proof (induction "a # as" s arbitrary: p rule: js_split.induct)
  case (2)
  then show ?case by simp
next
  case (3 c cs)
  show ?case
  proof (cases "prefix (a # as) (c # cs)")
    case True
    with "3.prems" js_split_nonempty[of "a # as" "drop (length (a # as)) (c # cs)"]
    show ?thesis by simp
  next
    case False
    obtain q qs where sp: "js_split (a # as) cs = q # qs"
      using js_split_nonempty[of "a # as" cs] by (cases "js_split (a # as) cs") auto
    with "3.prems" False have "qs = []" "p = c # q" by auto
    with sp "3.hyps"(2)[OF False, of q] show ?thesis by simp
  qed
qed

lemma join_Cons: "join sep (q # qs) = q @ (if qs = [] then [] else sep @ join sep qs)"
  by (cases qs) simp_all

lemma join_js_split: "join (a # as) (js_split (a # as) s) = s"
proof (induction "a # as" s rule: js_split.induct)
  case 2
  show ?case by simp
next
  case (3 c cs)
  let ?sep = "a # as"
  show ?case
  proof (cases "prefix ?sep (c # cs)")
    case True
    have ne: "js_split ?sep (drop (length ?sep) (c # cs)) \<noteq> []"
      by (rule js_split_nonempty) simp
    have "join ?sep (js_split ?sep (c # cs)) = ?sep @ drop (length ?sep) (c # cs)"
      using True ne "3.hyps"(1)[OF True] by (simp add: join_Cons)
    also have "\<dots> = c # cs"
      using True by (metis append_take_drop_id prefix_def append_eq_conv_conj)
    finally show ?thesis .
  next
    case False
    obtain q qs where sp: "js_split ?sep cs = q # qs"
      using js_split_nonempty[of ?sep cs] by (cases "js_split ?sep cs") auto
    have "js_split ?sep (c # cs) = (c # q) # qs" using False sp by simp
    moreover have "join ?sep (q # qs) = cs" using "3.hyps"(2)[OF False] sp by simp
    ultimately show ?thesis by (simp add: join_Cons)
  qed
qed

lemma js_split_piece_free:
  "p \<in> set (js_split (a # as) s) \<Longrightarrow> \<not> sublist (a # as) p"
proof (induction "a # as" s arbitrary: p rule: js_split.induct)
  case 2
  then show ?case by simp
next
  case (3 c cs)
  let ?sep = "a # as"
  show ?case
  proof (cases "prefix ?sep (c # cs)")
    case True
    with "3.prems" have "p = [] \<or> p \<in> set (js_split ?sep (drop (length ?sep) (c # cs)))"
      by simp
    then show ?thesis using "3.hyps"(1)[OF True] by auto
  next
    case False
    obtain q qs where sp: "js_split ?sep cs = q # qs"
      using js_split_nonempty[of ?sep cs] by (cases "js_split ?sep cs") auto
    have eq: "js_split ?sep (c # cs) = (c # q) # qs" using False sp by simp
    have "join ?sep (q # qs) = cs" using join_js_split[of a as cs] sp by simp
    then have pq: "prefix q cs" by (auto simp: join_Cons prefix_def)
    from "3.prems" eq have "p = c # q \<or> p \<in> set qs" by (simp only: set_ConsD)
    then show ?thesis
    proof
      assume p: "p = c # q"
      have "\<not> prefix ?sep (c # q)"
      proof
        assume "prefix ?sep (c # q)"
        moreover have "prefix (c # q) (c # cs)" using pq by simp
        ultimately have "prefix ?sep (c # cs)" by (rule prefix_order.trans)
        with False show False by simp
      qed
      moreover have "\<not> sublist ?sep q" using "3.hyps"(2)[OF False, of q] sp by simp
      ultimately show ?thesis using p by (simp only: sublist_Cons_right) simp
    next
      assume "p \<in> set qs"
      then show ?thesis using "3.hyps"(2)[OF False, of p] sp by simp
    qed
  qed
qed

lemma js_split_leftmost:
  "p \<in> set (butlast (js_split (a # as) s)) \<Longrightarrow> \<not> sublist (a # as) (p @ butlast (a # as))"
proof (induction "a # as" s arbitrary: p rule: js_split.induct)
  case 2
  then show ?case by simp
next
  case (3 c cs)
  let ?sep = "a # as"
  show ?case
  proof (cases "prefix ?sep (c # cs)")
    case True
    have ne: "js_split ?sep (drop (length ?sep) (c # cs)) \<noteq> []"
      by (rule js_split_nonempty) simp
    with True "3.prems"
    have "p = [] \<or> p \<in> set (butlast (js_split ?sep (drop (length ?sep) (c # cs))))"
      by simp
    then show ?thesis
    proof
      assume "p = []"
      then show ?thesis using sublist_length_le[of "a # as" "butlast (a # as)"] by auto
    next
      assume "p \<in> set (butlast (js_split ?sep (drop (length ?sep) (c # cs))))"
      then show ?thesis by (rule "3.hyps"(1)[OF True])
    qed
  next
    case False
    obtain q qs where sp: "js_split ?sep cs = q # qs"
      using js_split_nonempty[of ?sep cs] by (cases "js_split ?sep cs") auto
    have eq: "js_split ?sep (c # cs) = (c # q) # qs" using False sp by simp
    show ?thesis
    proof (cases qs)
      case Nil
      with eq "3.prems" show ?thesis by simp
    next
      case (Cons r rs)
      have "join ?sep (q # qs) = cs" using join_js_split[of a as cs] sp by simp
      then have j: "cs = q @ ?sep @ join ?sep qs"
        using Cons by (simp add: join_Cons)
      have "?sep = butlast ?sep @ [last ?sep]" by (rule append_butlast_last_id[symmetric]) simp
      then have "q @ ?sep @ join ?sep qs = (q @ butlast ?sep) @ ([last ?sep] @ join ?sep qs)"
        by (metis append_assoc)
      with j have "cs = (q @ butlast ?sep) @ ([last ?sep] @ join ?sep qs)" by (rule trans)
      then have pq: "prefix (q @ butlast ?sep) cs" by (metis prefixI)
      from "3.prems" eq Cons have "p = c # q \<or> p \<in> set (butlast qs)" by simp
      then show ?thesis
      proof
        assume p: "p = c # q"
        have "\<not> prefix ?sep (c # q @ butlast ?sep)"
        proof
          assume "prefix ?sep (c # q @ butlast ?sep)"
          moreover have "prefix (c # q @ butlast ?sep) (c # cs)" using pq by simp
          ultimately have "prefix ?sep (c # cs)" by (rule prefix_order.trans)
          with False show False by simp
        qed
        moreover have "\<not> sublist ?sep (q @ butlast ?sep)"
          using "3.hyps"(2)[OF False, of q] sp Cons by simp
        ultimately show ?thesis using p by (simp only: append_Cons sublist_Cons_right) simp
      next
        assume "p \<in> set (butlast qs)"
        then show ?thesis using "3.hyps"(2)[OF False, of p] sp Cons by simp
      qed
    qed
  qed
qed


lemma sublist_single: "sublist [x] l \<longleftrightarrow> x \<in> set l"
  by (induction l) (auto simp: sublist_Cons_right)

section \<open>The frame parser\<close>

lemma labels_exclusive: "prefix ''event: '' l \<Longrightarrow> \<not> prefix ''data: '' l"
  by (cases l) auto

lemma scan_lines_last_labelled:
  "scan_lines lines (t, d) =
     (if filter (prefix ''event: '') lines = [] then t else last_labelled ''event: '' lines,
      if filter (prefix ''data: '') lines = [] then d else last_labelled ''data: '' lines)"
proof (induction lines arbitrary: t d)
  case Nil
  show ?case by simp
next
  case (Cons l ls)
  show ?case
  proof (cases "prefix ''event: '' l")
    case True
    then have nd: "\<not> prefix ''data: '' l" by (rule labels_exclusive)
    show ?thesis using True nd Cons[of "drop 7 l" d]
      by (simp add: last_labelled_def eval_nat_numeral split: list.splits)
  next
    case False
    show ?thesis
    proof (cases "prefix ''data: '' l")
      case True
      show ?thesis using False True Cons[of t "drop 6 l"]
        by (simp add: last_labelled_def eval_nat_numeral split: list.splits)
    next
      case nd: False
      show ?thesis using False nd Cons[of t d]
        by (simp add: last_labelled_def)
    qed
  qed
qed

lemma last_labelled_none: "filter (prefix lab) ls = [] \<Longrightarrow> last_labelled lab ls = []"
  by (simp add: last_labelled_def)

lemma scan_lines_initial:
  "scan_lines lines ([], []) = (last_labelled ''event: '' lines, last_labelled ''data: '' lines)"
  by (auto simp: scan_lines_last_labelled last_labelled_none)

lemma filter_labelled:
  "filter (prefix ''event: '')
     (filter (\<lambda>l. prefix ''event: '' l \<or> prefix ''data: '' l) ls) = filter (prefix ''event: '') ls"
  "filter (prefix ''data: '')
     (filter (\<lambda>l. prefix ''event: '' l \<or> prefix ''data: '' l) ls) = filter (prefix ''data: '') ls"
  by (induction ls) auto

text \<open>
  Claim C7. For every frame, the parser splits it into lines and takes as the kind the
  last line that begins with \<^verbatim>\<open>event: \<close> and as the payload the last line that begins
  with \<^verbatim>\<open>data: \<close>, each without its label; a later line of a label overrides an
  earlier one. The kind is the empty string when no line carries the event label (and so
  is the payload when none carries the data label). Lines that begin with neither label
  are ignored: the result is the one obtained from the labelled lines alone. The lines
  are the pieces of the frame between its newlines: joined by newlines they give the
  frame back, and none of them contains a newline.
\<close>

theorem parse_frame_last_wins:
  "parse_frame event =
     (last_labelled ''event: '' (js_split ''\<newline>'' event),
      last_labelled ''data: '' (js_split ''\<newline>'' event))
   \<and> parse_frame event =
       scan_lines
         (filter (\<lambda>l. prefix ''event: '' l \<or> prefix ''data: '' l) (js_split ''\<newline>'' event))
         ([], [])
   \<and> join ''\<newline>'' (js_split ''\<newline>'' event) = event
   \<and> (\<forall>l \<in> set (js_split ''\<newline>'' event). CHR ''\<newline>'' \<notin> set l)"
proof -
  have "last_labelled lab (filter (\<lambda>l. prefix ''event: '' l \<or> prefix ''data: '' l) ls)
          = last_labelled lab ls"
    if "lab = ''event: '' \<or> lab = ''data: ''" for lab ls
    using that filter_labelled[of ls] unfolding last_labelled_def by auto
  then have a: "parse_frame event =
     (last_labelled ''event: '' (js_split ''\<newline>'' event),
      last_labelled ''data: '' (js_split ''\<newline>'' event))
   \<and> parse_frame event =
       scan_lines
         (filter (\<lambda>l. prefix ''event: '' l \<or> prefix ''data: '' l) (js_split ''\<newline>'' event))
         ([], [])"
    unfolding parse_frame_def scan_lines_initial by simp
  have j: "join ''\<newline>'' (js_split ''\<newline>'' event) = event" by (rule join_js_split)
  have f: "\<forall>l \<in> set (js_split ''\<newline>'' event). CHR ''\<newline>'' \<notin> set l"
    using js_split_piece_free[of _ "CHR ''\<newline>''" "[]" event] by (simp add: sublist_single)
  from a j f show ?thesis by (elim conjE) (intro conjI; assumption)
qed

theorem parse_frame_last_wins_witness:
  "js_split ''\<newline>'' ''event: ping\<newline>id: 7\<newline>event: step\<newline>data: 1\<newline>: note\<newline>data: {}''
     = [''event: ping'', ''id: 7'', ''event: step'', ''data: 1'', '': note'', ''data: {}'']
   \<and> parse_frame ''event: ping\<newline>id: 7\<newline>event: step\<newline>data: 1\<newline>: note\<newline>data: {}''
     = (''step'', ''{}'')
   \<and> parse_frame ''id: 7\<newline>data: {}'' = ([], ''{}'')"
proof -
  let ?e = "''event: ping\<newline>id: 7\<newline>event: step\<newline>data: 1\<newline>: note\<newline>data: {}''"
  have s: "js_split ''\<newline>'' ?e
     = [''event: ping'', ''id: 7'', ''event: step'', ''data: 1'', '': note'', ''data: {}'']"
    by code_simp
  have a: "parse_frame ?e =
     (last_labelled ''event: '' (js_split ''\<newline>'' ?e), last_labelled ''data: '' (js_split ''\<newline>'' ?e))"
    using parse_frame_last_wins[of ?e] by (elim conjE)
  have b: "(last_labelled ''event: '' (js_split ''\<newline>'' ?e), last_labelled ''data: '' (js_split ''\<newline>'' ?e))
     = (''step'', ''{}'')"
    by code_simp
  have a2: "parse_frame ''id: 7\<newline>data: {}'' =
     (last_labelled ''event: '' (js_split ''\<newline>'' ''id: 7\<newline>data: {}''),
      last_labelled ''data: '' (js_split ''\<newline>'' ''id: 7\<newline>data: {}''))"
    using parse_frame_last_wins[of "''id: 7\<newline>data: {}''"] by (elim conjE)
  have b2: "(last_labelled ''event: '' (js_split ''\<newline>'' ''id: 7\<newline>data: {}''),
      last_labelled ''data: '' (js_split ''\<newline>'' ''id: 7\<newline>data: {}''))
     = ([], ''{}'')"
    by code_simp
  show ?thesis
    by (rule conjI[OF s conjI[OF trans[OF a b] trans[OF a2 b2]]])
qed

section \<open>Reset and new attempt\<close>

text \<open>
  Claim C8. An explicit reset, from a terminal state as from any other, leaves the
  session as it is at first construction: state idle, no selected file, empty progress
  log, no completion summary, empty error message (the drag flag and the dietary
  preferences, which are not part of the session, are kept). Starting a new attempt puts
  the state to uploading and clears the log, the summary and the error before anything is
  read from the stream, so that the attempt runs exactly as it would from a reset page.
\<close>

theorem reset_clean:
  "reset p = initial\<lparr>dragOver := dragOver p, preferences := preferences p\<rparr>
   \<and> state (begin_attempt f p) = Uploading
   \<and> steps (begin_attempt f p) = []
   \<and> doneResult (begin_attempt f p) = JNull
   \<and> errorMessage (begin_attempt f p) = JString []
   \<and> handleUpload rt fetch f p = handleUpload rt fetch f (reset p)"
  by (simp add: reset_def initial_def begin_attempt_def handleUpload_def)

section \<open>The frame buffer\<close>

lemma js_split_append:
  "js_split (a # as) (s1 @ s2) =
     butlast (js_split (a # as) s1) @ js_split (a # as) (last (js_split (a # as) s1) @ s2)"
proof (induction "a # as" s1 rule: js_split.induct)
  case 2
  show ?case by simp
next
  case (3 c cs)
  let ?sep = "a # as"
  show ?case
  proof (cases "prefix ?sep (c # cs)")
    case True
    then have p2: "prefix ?sep ((c # cs) @ s2)" by (metis prefix_prefix)
    have d: "drop (length ?sep) ((c # cs) @ s2) = drop (length ?sep) (c # cs) @ s2"
      using True by (auto dest: prefix_length_le)
    have ne: "js_split ?sep (drop (length ?sep) (c # cs)) \<noteq> []"
      by (rule js_split_nonempty) simp
    have "js_split ?sep ((c # cs) @ s2) = [] # js_split ?sep (drop (length ?sep) (c # cs) @ s2)"
      using p2 d by simp
    also have "\<dots> = [] # (butlast (js_split ?sep (drop (length ?sep) (c # cs))) @
         js_split ?sep (last (js_split ?sep (drop (length ?sep) (c # cs))) @ s2))"
      using "3.hyps"(1)[OF True] by simp
    finally show ?thesis using True ne by simp
  next
    case False
    obtain p ps where sp: "js_split ?sep cs = p # ps"
      using js_split_nonempty[of ?sep cs] by (cases "js_split ?sep cs") auto
    have lhs1: "js_split ?sep (c # cs) = (c # p) # ps" using False sp by simp
    show ?thesis
    proof (cases "prefix ?sep ((c # cs) @ s2)")
      case True
      have "length (c # cs) < length ?sep"
      proof (rule ccontr)
        assume "\<not> length (c # cs) < length ?sep"
        then have "length ?sep \<le> length (c # cs)" by simp
        then have "prefix ?sep (c # cs)" using True
          by (metis prefix_length_prefix prefixI)
        with False show False by simp
      qed
      then have "js_split ?sep (c # cs) = [c # cs]" by (rule js_split_short)
      then show ?thesis by simp
    next
      case np: False
      have ih: "js_split ?sep (cs @ s2) = butlast (p # ps) @ js_split ?sep (last (p # ps) @ s2)"
        using "3.hyps"(2)[OF False] sp by simp
      show ?thesis
      proof (cases ps)
        case Nil
        then have "p = cs" using sp js_split_single by blast
        with Nil lhs1 show ?thesis by simp
      next
        case (Cons q qs)
        have "js_split ?sep ((c # cs) @ s2) = (c # p) # (butlast ps @ js_split ?sep (last ps @ s2))"
          using np ih Cons by simp
        with lhs1 Cons show ?thesis by simp
      qed
    qed
  qed
qed

lemma js_split_last_whole:
  "js_split (a # as) (last (js_split (a # as) s)) = [last (js_split (a # as) s)]"
proof (induction "a # as" s rule: js_split.induct)
  case 2
  show ?case by simp
next
  case (3 c cs)
  let ?sep = "a # as"
  show ?case
  proof (cases "prefix ?sep (c # cs)")
    case True
    have ne: "js_split ?sep (drop (length ?sep) (c # cs)) \<noteq> []"
      by (rule js_split_nonempty) simp
    show ?thesis using True "3.hyps"(1)[OF True] ne by simp
  next
    case False
    obtain p ps where sp: "js_split ?sep cs = p # ps"
      using js_split_nonempty[of ?sep cs] by (cases "js_split ?sep cs") auto
    have lhs1: "js_split ?sep (c # cs) = (c # p) # ps" using False sp by simp
    show ?thesis
    proof (cases ps)
      case Nil
      then have "p = cs" using sp js_split_single by blast
      with Nil lhs1 have "js_split ?sep (c # cs) = [c # cs]" by simp
      then show ?thesis by (simp only: last.simps simp_thms if_True)
    next
      case (Cons q qs)
      have "last ((c # p) # ps) = last (p # ps)" using Cons by simp
      with sp lhs1 "3.hyps"(2)[OF False] show ?thesis by (simp only:)
    qed
  qed
qed

lemma for_events_append:
  "for_events rt cb (xs @ ys) s = for_events rt cb ys (for_events rt cb xs s)"
  by (induction xs arbitrary: s) auto

lemma read_loop_ingest_chunks:
  "read_loop rt cb b cs fin s = (for_events rt cb (fst (ingest_chunks b cs)) s, fin)"
  by (induction cs arbitrary: b s) (auto simp: for_events_append split: prod.splits)

lemma ingest_chunks_split:
  assumes "js_split ''\<newline>\<newline>'' b = [b]"
  shows "ingest_chunks b cs =
     (butlast (js_split ''\<newline>\<newline>'' (b @ concat cs)),
      last (js_split ''\<newline>\<newline>'' (b @ concat cs)))"
  using assms
proof (induction cs arbitrary: b)
  case Nil
  then show ?case by simp
next
  case (Cons ch rest)
  let ?sep = "''\<newline>\<newline>''"
  let ?ev = "js_split ?sep (b @ ch)"
  have ne: "?ev \<noteq> []" by (rule js_split_nonempty) simp
  have ing: "ingest b ch = (butlast ?ev, last ?ev)"
    using ne by (simp add: ingest_def pop_or_empty_def Let_def)
  have whole: "js_split ?sep (last ?ev) = [last ?ev]" by (rule js_split_last_whole)
  have app: "js_split ?sep ((b @ ch) @ concat rest) =
      butlast ?ev @ js_split ?sep (last ?ev @ concat rest)"
    by (rule js_split_append)
  have ne2: "js_split ?sep (last ?ev @ concat rest) \<noteq> []" by (rule js_split_nonempty) simp
  have "ingest_chunks b (ch # rest) =
      (butlast ?ev @ fst (ingest_chunks (last ?ev) rest), snd (ingest_chunks (last ?ev) rest))"
    using ing by (simp split: prod.splits)
  also have "\<dots> = (butlast ?ev @ butlast (js_split ?sep (last ?ev @ concat rest)),
      last (js_split ?sep (last ?ev @ concat rest)))"
    by (simp add: Cons.IH[OF whole])
  also have "\<dots> = (butlast (js_split ?sep (b @ concat (ch # rest))),
      last (js_split ?sep (b @ concat (ch # rest))))"
    using app ne2 by (simp add: butlast_append)
  finally show ?case .
qed

text \<open>
  Claim C2. However a text is cut into chunks, the rounds of the reading loop hand to the
  event loop exactly the pieces of the whole text that lie between blank-line separators
  (two consecutive newlines), in order, each once and as it stands, except the piece
  after the last separator: that piece is what the buffer holds at the end of the stream
  and it is dropped there. So the result of the loop is the one of the event loop run
  over these pieces, and for a given text it does not depend on the chunk boundaries.
  The pieces are determined by the text alone: the emitted ones and the dropped one,
  joined by the separator, give the text back; none of them contains the separator; and
  each emitted one ends where the separator first occurs after it begins.
\<close>

theorem chunk_boundary_invariance:
  "ingest_chunks [] cs =
     (butlast (js_split ''\<newline>\<newline>'' (concat cs)), last (js_split ''\<newline>\<newline>'' (concat cs)))
   \<and> read_loop rt cb [] cs fin s =
       (for_events rt cb (butlast (js_split ''\<newline>\<newline>'' (concat cs))) s, fin)
   \<and> read_loop rt cb [] cs fin s = (for_events rt cb (fst (ingest_chunks [] cs)) s, fin)
   \<and> join ''\<newline>\<newline>'' (fst (ingest_chunks [] cs) @ [snd (ingest_chunks [] cs)]) = concat cs
   \<and> (\<forall>p \<in> set (fst (ingest_chunks [] cs) @ [snd (ingest_chunks [] cs)]).
         \<not> sublist ''\<newline>\<newline>'' p)
   \<and> (\<forall>p \<in> set (fst (ingest_chunks [] cs)). \<not> sublist ''\<newline>\<newline>'' (p @ ''\<newline>''))"
proof -
  let ?sep = "''\<newline>\<newline>''"
  let ?ps = "js_split ?sep (concat cs)"
  have ne: "?ps \<noteq> []" by (rule js_split_nonempty) simp
  have ic: "ingest_chunks [] cs = (butlast ?ps, last ?ps)"
    using ingest_chunks_split[of "[]" cs] by simp
  have all: "fst (ingest_chunks [] cs) @ [snd (ingest_chunks [] cs)] = ?ps"
    using ne by (simp add: ic)
  have j: "join ?sep ?ps = concat cs" by (rule join_js_split)
  have f: "\<forall>p \<in> set ?ps. \<not> sublist ?sep p"
    using js_split_piece_free by blast
  have l: "\<forall>p \<in> set (butlast ?ps). \<not> sublist ?sep (p @ ''\<newline>'')"
    using js_split_leftmost[of _ "CHR ''\<newline>''" "''\<newline>''" "concat cs"] by simp
  show ?thesis
    unfolding all
    using ic j f l by (simp add: read_loop_ingest_chunks)
qed

theorem chunk_boundary_invariance_witness:
  "ingest_chunks []
     [''event: st'', ''ep\<newline>data: {}\<newline>'', ''\<newline>event: done\<newline>data: {}\<newline>\<newline>event: er'']
   = ([''event: step\<newline>data: {}'', ''event: done\<newline>data: {}''], ''event: er'')
   \<and> ingest_chunks []
     [''event: step\<newline>data: {}\<newline>\<newline>event: done\<newline>data: {}\<newline>\<newline>event: er'']
   = ([''event: step\<newline>data: {}'', ''event: done\<newline>data: {}''], ''event: er'')"
proof -
  let ?c1 = "[''event: st'', ''ep\<newline>data: {}\<newline>'', ''\<newline>event: done\<newline>data: {}\<newline>\<newline>event: er'']"
  let ?c2 = "[''event: step\<newline>data: {}\<newline>\<newline>event: done\<newline>data: {}\<newline>\<newline>event: er'']"
  have a1: "ingest_chunks [] ?c1 =
     (butlast (js_split ''\<newline>\<newline>'' (concat ?c1)), last (js_split ''\<newline>\<newline>'' (concat ?c1)))"
    using chunk_boundary_invariance[where cs = ?c1 and rt = runtime0 and cb = recording
        and fin = None and s = "[]"]
    by (elim conjE)
  have a2: "ingest_chunks [] ?c2 =
     (butlast (js_split ''\<newline>\<newline>'' (concat ?c2)), last (js_split ''\<newline>\<newline>'' (concat ?c2)))"
    using chunk_boundary_invariance[where cs = ?c2 and rt = runtime0 and cb = recording
        and fin = None and s = "[]"]
    by (elim conjE)
  have b1: "(butlast (js_split ''\<newline>\<newline>'' (concat ?c1)), last (js_split ''\<newline>\<newline>'' (concat ?c1)))
      = ([''event: step\<newline>data: {}'', ''event: done\<newline>data: {}''], ''event: er'')"
    by code_simp
  have b2: "(butlast (js_split ''\<newline>\<newline>'' (concat ?c2)), last (js_split ''\<newline>\<newline>'' (concat ?c2)))
      = ([''event: step\<newline>data: {}'', ''event: done\<newline>data: {}''], ''event: er'')"
    by code_simp
  show ?thesis
    by (rule conjI[OF trans[OF a1 b1] trans[OF a2 b2]])
qed

section \<open>Frames that are dropped\<close>

lemma trim_empty_all_space: "trim s = [] \<Longrightarrow> \<forall>c \<in> set s. is_space c"
proof -
  assume t: "trim s = []"
  then have "\<forall>c \<in> set (dropWhile is_space s). is_space c"
    by (simp add: trim_def)
  then have "dropWhile is_space s = []"
    using hd_dropWhile[of is_space s] by (cases "dropWhile is_space s") auto
  then show ?thesis by simp
qed

lemma js_split_chars: "l \<in> set (js_split sep s) \<Longrightarrow> set l \<subseteq> set s"
proof (induction sep s arbitrary: l rule: js_split.induct)
  case (1 s)
  then show ?case by auto
next
  case (2 a as)
  then show ?case by simp
next
  case (3 a as c cs)
  show ?case
  proof (cases "prefix (a # as) (c # cs)")
    case True
    with "3.prems" have "l = [] \<or> l \<in> set (js_split (a # as) (drop (length (a # as)) (c # cs)))"
      by simp
    then show ?thesis
    proof
      assume "l = []" then show ?thesis by simp
    next
      assume "l \<in> set (js_split (a # as) (drop (length (a # as)) (c # cs)))"
      then have "set l \<subseteq> set (drop (length (a # as)) (c # cs))"
        by (rule "3.IH"(1)[OF True])
      also have "\<dots> \<subseteq> set (c # cs)" by (rule set_drop_subset)
      finally show ?thesis .
    qed
  next
    case False
    show ?thesis
    proof (cases "js_split (a # as) cs")
      case Nil
      then show ?thesis using js_split_nonempty[of "a # as" cs] by simp
    next
      case (Cons q qs)
      have "js_split (a # as) (c # cs) = (c # q) # qs" using False Cons by simp
      with "3.prems" have "l = c # q \<or> l \<in> set qs" by (simp only: set_ConsD)
      then show ?thesis
      proof
        assume "l = c # q"
        moreover have "set q \<subseteq> set cs" using "3.IH"(2)[OF False, of q] Cons by simp
        ultimately show ?thesis by auto
      next
        assume "l \<in> set qs"
        then have "set l \<subseteq> set cs" using "3.IH"(2)[OF False, of l] Cons by simp
        then show ?thesis by auto
      qed
    qed
  qed
qed

lemma blank_frame_no_data: "trim event = [] \<Longrightarrow> snd (parse_frame event) = []"
proof -
  assume "trim event = []"
  then have sp: "\<forall>c \<in> set event. is_space c" by (rule trim_empty_all_space)
  have "\<not> prefix ''data: '' l" if "l \<in> set (js_split ''\<newline>'' event)" for l
  proof
    assume "prefix ''data: '' l"
    then have "CHR ''d'' \<in> set l" by (cases l) auto
    with js_split_chars[OF that] sp have "is_space (CHR ''d'')" by auto
    then show False by (simp add: is_space_def)
  qed
  then have "filter (prefix ''data: '') (js_split ''\<newline>'' event) = []"
    by (simp add: filter_empty_conv)
  then show ?thesis
    by (simp add: parse_frame_def scan_lines_initial last_labelled_none)
qed

lemma process_event_eq:
  "process_event rt cb event s =
     (if snd (parse_frame event) = [] then s
      else catch_skip (try_block rt cb (fst (parse_frame event)) (snd (parse_frame event)) s))"
  using blank_frame_no_data[of event]
  by (auto simp: process_event_def split: prod.splits)

lemma for_events_drop:
  "process_event rt cb f = (\<lambda>s. s) \<Longrightarrow>
   for_events rt cb (pre @ f # post) s = for_events rt cb (pre @ post) s"
  by (simp add: for_events_append)

text \<open>
  Claim C4. A frame with no data line, with an empty data line, with a data line that
  \<^verbatim>\<open>JSON.parse\<close> rejects, or with a kind other than \<^verbatim>\<open>step\<close>, \<^verbatim>\<open>done\<close> and
  \<^verbatim>\<open>error\<close> leaves the caller's state as it was, whatever the callbacks are: no handler
  is invoked (the recording callbacks log nothing) and the page keeps its lifecycle
  state, log, error message and summary. The stream goes on: the frames around it are
  processed as if it were not there.
\<close>

theorem malformed_frame_dropped:
  assumes "snd (parse_frame f) = [] \<or> JSON_parse rt (snd (parse_frame f)) = None
           \<or> fst (parse_frame f) \<notin> {''step'', ''done'', ''error''}"
  shows "process_event rt cb f s = s
         \<and> calls_of rt f = []
         \<and> process_event rt page_callbacks f p = p
         \<and> for_events rt cb (pre @ f # post) s = for_events rt cb (pre @ post) s"
proof -
  have "process_event rt cb f s = s" using assms
    by (auto simp: process_event_eq try_block_def catch_skip_def split: option.splits)
  moreover have "calls_of rt f = []" using assms
    by (auto simp: calls_of_def process_event_eq try_block_def catch_skip_def split: option.splits)
  moreover have "process_event rt page_callbacks f p = p" using assms 
    by (auto simp: process_event_eq try_block_def catch_skip_def split: option.splits)
  moreover have "process_event rt cb f = (\<lambda>s. s)" using assms
    by (auto simp: fun_eq_iff process_event_eq try_block_def catch_skip_def split: option.splits)
  ultimately show ?thesis by (simp add: for_events_drop)
qed

theorem malformed_frame_dropped_witness:
  "JSON_parse runtime0 (snd (parse_frame ''event: step\<newline>data: not-json'')) = None
   \<and> (process_event runtime0 page_callbacks ''event: step\<newline>data: not-json'' initial = initial
      \<and> calls_of runtime0 ''event: step\<newline>data: not-json'' = []
      \<and> process_event runtime0 page_callbacks ''event: step\<newline>data: not-json'' initial = initial
      \<and> for_events runtime0 page_callbacks
            ([] @ ''event: step\<newline>data: not-json'' # [''event: done\<newline>data: {}'']) initial
          = for_events runtime0 page_callbacks ([] @ [''event: done\<newline>data: {}'']) initial)"
proof -
  have h: "JSON_parse runtime0 (snd (parse_frame ''event: step\<newline>data: not-json'')) = None"
    by code_simp
  show ?thesis
    using h malformed_frame_dropped[OF disjI2[OF disjI1[OF h]]] by (rule conjI)
qed

section \<open>Frames that are dispatched\<close>

lemma process_event_parsed:
  assumes "parse_frame f = (k, d)" "d \<noteq> []" "JSON_parse rt d = Some v"
  shows "process_event rt cb f s =
     (if k = ''step'' then fst (onStep cb v s)
      else if k = ''done'' then fst (onDone cb v s)
      else if k = ''error'' then
        (case get_property v ''error'' of
           None \<Rightarrow> s
         | Some fld \<Rightarrow> fst (onError cb (or_default rt fld (JString ''Unknown error'')) s))
      else s)"
  using assms
  by (simp add: process_event_eq try_block_def catch_skip_def split: option.splits)

text \<open>
  Claim C3, as amended. The payload of a \<^verbatim>\<open>step\<close> or \<^verbatim>\<open>done\<close> frame is never
  checked against the shape of its event: the cast in \<^verbatim>\<open>parsed as ReasoningStep\<close> does
  nothing at run time. Whenever the data line of such a frame parses, the matching handler
  is invoked once with the parsed value as it is, whatever fields it has or lacks; on the
  upload page a step payload is appended to the log and a done payload becomes the summary
  with the state set to done.
\<close>

theorem payload_not_validated:
  assumes "parse_frame f = (k, d)" "d \<noteq> []" "JSON_parse rt d = Some v"
    and "k = ''step'' \<or> k = ''done''"
  shows "process_event rt cb f s = (if k = ''step'' then fst (onStep cb v s) else fst (onDone cb v s))
       \<and> calls_of rt f = (if k = ''step'' then [StepCall v] else [DoneCall v])
       \<and> process_event rt page_callbacks f p =
           (if k = ''step'' then p\<lparr>steps := steps p @ [v]\<rparr> else p\<lparr>doneResult := v, state := Done\<rparr>)"
  using assms(4)
  by (auto simp: process_event_parsed[OF assms(1-3)] calls_of_def recording_def page_callbacks_def)

theorem payload_not_validated_witness:
  "(parse_frame ''event: step\<newline>data: {}'' = (''step'', ''{}'') \<and> ''{}'' \<noteq> []
     \<and> JSON_parse runtime0 ''{}'' = Some (JObject [])
     \<and> (''step'' = ''step'' \<or> ''step'' = ''done''))
   \<and> (process_event runtime0 page_callbacks ''event: step\<newline>data: {}'' initial
         = (if ''step'' = ''step'' then fst (onStep page_callbacks (JObject []) initial)
            else fst (onDone page_callbacks (JObject []) initial))
      \<and> calls_of runtime0 ''event: step\<newline>data: {}''
         = (if ''step'' = ''step'' then [StepCall (JObject [])] else [DoneCall (JObject [])])
      \<and> process_event runtime0 page_callbacks ''event: step\<newline>data: {}'' initial
         = (if ''step'' = ''step'' then initial\<lparr>steps := steps initial @ [JObject []]\<rparr>
            else initial\<lparr>doneResult := JObject [], state := Done\<rparr>))"
proof -
  have h1: "parse_frame ''event: step\<newline>data: {}'' = (''step'', ''{}'')" by code_simp
  have h2: "''{}'' \<noteq> []" by simp
  have h3: "JSON_parse runtime0 ''{}'' = Some (JObject [])" by code_simp
  have h4: "''step'' = ''step'' \<or> ''step'' = ''done''" by simp
  show ?thesis
    using h1 h2 h3 h4 payload_not_validated[OF h1 h2 h3 h4, of page_callbacks initial initial]
    by blast 
qed

text \<open>
  The claim as first stated fails: a step frame and a done frame whose payload is the
  empty object are not dropped.
\<close>

theorem step_without_fields_counterexample:
  "calls_of runtime0 ''event: step\<newline>data: {}'' = [StepCall (JObject [])]
   \<and> steps (process_event runtime0 page_callbacks ''event: step\<newline>data: {}'' initial) = [JObject []]
   \<and> calls_of runtime0 ''event: done\<newline>data: {}'' = [DoneCall (JObject [])]
   \<and> state (process_event runtime0 page_callbacks ''event: done\<newline>data: {}'' initial) = Done"
  by code_simp





section \<open>Callbacks that throw\<close>

lemma try_block_quiet:
  "fst (try_block rt (quiet cb) k d s) = fst (try_block rt cb k d s)"
  by (simp add: try_block_def quiet_def split: option.splits)

lemma process_event_quiet: "process_event rt (quiet cb) f s = process_event rt cb f s"
  by (simp add: process_event_def catch_skip_def try_block_quiet split: prod.splits)

lemma for_events_quiet: "for_events rt (quiet cb) fs s = for_events rt cb fs s"
  by (induction fs arbitrary: s) (simp_all add: process_event_quiet)

lemma read_loop_quiet: "read_loop rt (quiet cb) b cs fin s = read_loop rt cb b cs fin s"
  by (simp add: read_loop_ingest_chunks for_events_quiet)

text \<open>
  Claim C10. The callbacks are called inside the \<^verbatim>\<open>try\<close> block, so a callback that
  throws is treated like a malformed frame: what it throws is dropped and the loop goes on
  with the next frame. Over a readable stream that ends cleanly \<^verbatim>\<open>uploadReportStreaming\<close>
  returns normally whatever the callbacks throw; for every transport its result is the
  one obtained with callbacks that do the same and throw nothing, so nothing thrown by a
  callback reaches the caller or ends the attempt.
\<close>

theorem callback_exception_swallowed:
  "snd (uploadReportStreaming rt
          (Resolves \<lparr>ok = True, json = j, body = Some \<lparr>chunks = cs, ending = None\<rparr>\<rparr>) cb s) = None
   \<and> uploadReportStreaming rt fetch cb s = uploadReportStreaming rt fetch (quiet cb) s
   \<and> process_event rt cb f s = process_event rt (quiet cb) f s
   \<and> for_events rt cb (f # fs) s = for_events rt cb fs (process_event rt (quiet cb) f s)"
proof -
  have "snd (uploadReportStreaming rt
          (Resolves \<lparr>ok = True, json = j, body = Some \<lparr>chunks = cs, ending = None\<rparr>\<rparr>) cb s) = None"
    by (simp add: uploadReportStreaming_def read_loop_ingest_chunks)
  moreover have "uploadReportStreaming rt fetch cb s = uploadReportStreaming rt fetch (quiet cb) s"
    by (simp add: uploadReportStreaming_def read_loop_quiet split: fetch_result.splits option.splits)
  ultimately show ?thesis by (simp add: process_event_quiet)
qed

section \<open>Terminal frames\<close>

lemma process_event_recording:
  "process_event rt recording f calls = calls @ calls_of rt f"
  by (simp add: calls_of_def process_event_eq try_block_def catch_skip_def recording_def
      split: option.splits)

lemma calls_of_length: "length (calls_of rt f) \<le> 1"
  by (simp add: calls_of_def process_event_eq try_block_def catch_skip_def recording_def
      split: option.splits)

lemma for_events_recording:
  "for_events rt recording fs calls = calls @ concat (map (calls_of rt) fs)"
proof (induction fs arbitrary: calls)
  case Nil
  show ?case by simp
next
  case (Cons f fs)
  show ?case by (simp add: Cons.IH process_event_recording[of rt f calls])
qed

text \<open>
  Claim C1, as amended. The dispatcher keeps no record of a terminal event: every complete
  frame is dispatched by itself, so the handler calls of a stream are, in order, the
  calls of its frames taken alone, at most one for each. When no frame after the first
  terminal one causes a call, as in a stream that its producer closes after the terminal
  frame, exactly one terminal handler is invoked and no progress handler after it.
\<close>

theorem frames_dispatched_independently:
  "for_events rt recording fs [] = concat (map (calls_of rt) fs)
   \<and> fst (read_loop rt recording [] cs fin [])
       = concat (map (calls_of rt) (butlast (js_split ''\<newline>\<newline>'' (concat cs))))
   \<and> length (calls_of rt f) \<le> 1
   \<and> ((\<forall>g \<in> set pre. \<forall>a \<in> set (calls_of rt g). \<not> is_terminal a)
        \<and> calls_of rt t = [c] \<and> is_terminal c
        \<and> (\<forall>g \<in> set post. calls_of rt g = [])
      \<longrightarrow> for_events rt recording (pre @ t # post) [] = concat (map (calls_of rt) pre) @ [c]
          \<and> filter is_terminal (for_events rt recording (pre @ t # post) []) = [c])"
proof -
  have a: "for_events rt recording fs [] = concat (map (calls_of rt) fs)" for fs
    using for_events_recording[of rt fs "[]"] by simp
  have b: "fst (read_loop rt recording [] cs fin [])
       = concat (map (calls_of rt) (butlast (js_split ''\<newline>\<newline>'' (concat cs))))"
    using ingest_chunks_split[of "[]" cs] by (simp add: read_loop_ingest_chunks a)
  have c: "for_events rt recording (pre @ t # post) [] = concat (map (calls_of rt) pre) @ [c]
          \<and> filter is_terminal (for_events rt recording (pre @ t # post) []) = [c]"
    if h: "\<forall>g \<in> set pre. \<forall>c \<in> set (calls_of rt g). \<not> is_terminal c"
      "calls_of rt t = [c]" "is_terminal c" "\<forall>g \<in> set post. calls_of rt g = []"
  proof -
    have "concat (map (calls_of rt) post) = []" using h(4) by simp
    then have e: "for_events rt recording (pre @ t # post) [] = concat (map (calls_of rt) pre) @ [c]"
      using h(2) by (simp add: a)
    have "filter is_terminal (concat (map (calls_of rt) pre)) = []"
      using h(1) by (auto simp: filter_empty_conv)
    with e h(3) show ?thesis by simp
  qed
  show ?thesis using a b c calls_of_length by blast
qed

theorem frames_dispatched_independently_witness:
  "calls_of runtime0 ''event: step\<newline>data: {}'' = [StepCall (JObject [])]
   \<and> calls_of runtime0 ''event: done\<newline>data: {}'' = [DoneCall (JObject [])]
   \<and> calls_of runtime0 ''event: step\<newline>data: not-json'' = []
   \<and> for_events runtime0 recording
         ([''event: step\<newline>data: {}''] @ ''event: done\<newline>data: {}'' # [''event: step\<newline>data: not-json''])
         []
        = concat (map (calls_of runtime0) [''event: step\<newline>data: {}'']) @ [DoneCall (JObject [])]
   \<and> filter is_terminal
        (for_events runtime0 recording
          ([''event: step\<newline>data: {}''] @ ''event: done\<newline>data: {}'' # [''event: step\<newline>data: not-json''])
          [])
       = [DoneCall (JObject [])]"
proof -
  have h: "(\<forall>g \<in> set [''event: step\<newline>data: {}'']. \<forall>a \<in> set (calls_of runtime0 g). \<not> is_terminal a)
      \<and> calls_of runtime0 ''event: done\<newline>data: {}'' = [DoneCall (JObject [])]
      \<and> is_terminal (DoneCall (JObject []) :: int call)
      \<and> (\<forall>g \<in> set [''event: step\<newline>data: not-json'']. calls_of runtime0 g = [])"
    by code_simp
  have imp: "(\<forall>g \<in> set [''event: step\<newline>data: {}'']. \<forall>a \<in> set (calls_of runtime0 g). \<not> is_terminal a)
      \<and> calls_of runtime0 ''event: done\<newline>data: {}'' = [DoneCall (JObject [])]
      \<and> is_terminal (DoneCall (JObject []) :: int call)
      \<and> (\<forall>g \<in> set [''event: step\<newline>data: not-json'']. calls_of runtime0 g = [])
    \<longrightarrow> for_events runtime0 recording
         ([''event: step\<newline>data: {}''] @ ''event: done\<newline>data: {}'' # [''event: step\<newline>data: not-json''])
         []
        = concat (map (calls_of runtime0) [''event: step\<newline>data: {}'']) @ [DoneCall (JObject [])]
      \<and> filter is_terminal
           (for_events runtime0 recording
             ([''event: step\<newline>data: {}''] @ ''event: done\<newline>data: {}'' # [''event: step\<newline>data: not-json''])
             [])
          = [DoneCall (JObject [])]"
    using frames_dispatched_independently[of runtime0 "[]" "[]" None "[]"
        "[''event: step\<newline>data: {}'']" "''event: done\<newline>data: {}''" "DoneCall (JObject [])"
        "[''event: step\<newline>data: not-json'']"]
    by (elim conjE)
  from imp h have c: "for_events runtime0 recording
         ([''event: step\<newline>data: {}''] @ ''event: done\<newline>data: {}'' # [''event: step\<newline>data: not-json''])
         []
        = concat (map (calls_of runtime0) [''event: step\<newline>data: {}'']) @ [DoneCall (JObject [])]
      \<and> filter is_terminal
           (for_events runtime0 recording
             ([''event: step\<newline>data: {}''] @ ''event: done\<newline>data: {}'' # [''event: step\<newline>data: not-json''])
             [])
          = [DoneCall (JObject [])]"
    by (rule mp)
  have e: "calls_of runtime0 ''event: step\<newline>data: {}'' = [StepCall (JObject [])]
   \<and> calls_of runtime0 ''event: done\<newline>data: {}'' = [DoneCall (JObject [])]
   \<and> calls_of runtime0 ''event: step\<newline>data: not-json'' = []"
    by code_simp
  from e c show ?thesis by (elim conjE) (intro conjI; assumption)
qed

text \<open>
  The claim as first stated fails on a stream that goes on after its terminal frame: the
  done frame, the step frame after it and the error frame after that each invoke their
  handler; on the upload page the late step is appended to the log and the state ends as
  error.
\<close>

theorem terminal_not_final_counterexample:
  "fst (uploadReportStreaming runtime0
     (Resolves \<lparr>ok = True, json = None,
        body = Some \<lparr>chunks =
          [''event: done\<newline>data: {}\<newline>\<newline>event: step\<newline>data: {}\<newline>\<newline>event: error\<newline>data: {}\<newline>\<newline>''],
          ending = None\<rparr>\<rparr>)
     recording [])
   = [DoneCall (JObject []), StepCall (JObject []), ErrorCall (JString ''Unknown error'')]
   \<and> handleUpload runtime0
     (Resolves \<lparr>ok = True, json = None,
        body = Some \<lparr>chunks =
          [''event: done\<newline>data: {}\<newline>\<newline>event: step\<newline>data: {}\<newline>\<newline>event: error\<newline>data: {}\<newline>\<newline>''],
          ending = None\<rparr>\<rparr>)
     ''report.pdf'' initial
   = \<lparr>state = Error, file = Some ''report.pdf'', dragOver = False, preferences = [],
      steps = [JObject []], doneResult = JObject [], errorMessage = JString ''Unknown error''\<rparr>"
  by code_simp

section \<open>The progress log on failure\<close>

lemma process_event_steps:
  "prefix (steps q) (steps (process_event rt page_callbacks f q))"
  by (simp add: process_event_eq try_block_def catch_skip_def page_callbacks_def
      split: option.splits)

lemma for_events_steps:
  "prefix (steps q) (steps (for_events rt page_callbacks fs q))"
proof (induction fs arbitrary: q)
  case Nil
  show ?case by simp
next
  case (Cons f fs)
  have "prefix (steps q) (steps (process_event rt page_callbacks f q))"
    by (rule process_event_steps)
  also have "prefix \<dots> (steps (for_events rt page_callbacks fs (process_event rt page_callbacks f q)))"
    by (rule Cons.IH)
  finally show ?case by simp
qed

lemma uploadReportStreaming_steps:
  "prefix (steps q) (steps (fst (uploadReportStreaming rt fetch page_callbacks q)))"
  by (simp add: uploadReportStreaming_def read_loop_ingest_chunks for_events_steps Let_def
      split: fetch_result.splits option.splits)

text \<open>
  Claim C9. Entering the error state leaves the progress log as it is. The failure
  handler changes the error message and the lifecycle state and nothing else; when
  \<^verbatim>\<open>uploadReportStreaming\<close> throws (a transport failure), the \<^verbatim>\<open>catch\<close> of
  \<^verbatim>\<open>handleUpload\<close> changes the same two fields of the state the stream had reached, so
  the steps received before the failure are kept. No frame and no stream ever shortens
  the log: it only grows by appended steps, and only \<^verbatim>\<open>reset\<close> and the start of a new
  attempt empty it.
\<close>

theorem error_keeps_log:
  "fst (onError page_callbacks m p) = p\<lparr>errorMessage := m, state := Error\<rparr>
   \<and> (uploadReportStreaming rt fetch page_callbacks ((begin_attempt f p)\<lparr>state := AgentRunning\<rparr>)
         = (q, Some err)
       \<longrightarrow> handleUpload rt fetch f p =
             q\<lparr>errorMessage :=
                  JString (case err of ErrorInstance msg \<Rightarrow> msg | NonError \<Rightarrow> ''Agent failed''),
               state := Error\<rparr>
           \<and> steps (handleUpload rt fetch f p) = steps q)
   \<and> prefix (steps q0) (steps (fst (uploadReportStreaming rt fetch page_callbacks q0)))
   \<and> prefix (steps q0) (steps (process_event rt page_callbacks ev q0))"
  by (simp add: page_callbacks_def handleUpload_def uploadReportStreaming_steps[unfolded page_callbacks_def]
      process_event_steps[unfolded page_callbacks_def])


theorem error_keeps_log_witness:
  "uploadReportStreaming runtime0
      (Resolves \<lparr>ok = True, json = None,
         body = Some \<lparr>chunks = [''event: step\<newline>data: {}\<newline>\<newline>event: st''],
                      ending = Some (ErrorInstance ''network error'')\<rparr>\<rparr>)
      page_callbacks ((begin_attempt ''report.pdf'' initial)\<lparr>state := AgentRunning\<rparr>)
    = (\<lparr>state = AgentRunning, file = Some ''report.pdf'', dragOver = False, preferences = [],
         steps = [JObject []], doneResult = JNull, errorMessage = JString []\<rparr>,
       Some (ErrorInstance ''network error''))
   \<and> (handleUpload runtime0
        (Resolves \<lparr>ok = True, json = None,
           body = Some \<lparr>chunks = [''event: step\<newline>data: {}\<newline>\<newline>event: st''],
                        ending = Some (ErrorInstance ''network error'')\<rparr>\<rparr>)
        ''report.pdf'' initial
      = \<lparr>state = AgentRunning, file = Some ''report.pdf'', dragOver = False, preferences = [],
         steps = [JObject []], doneResult = JNull, errorMessage = JString []\<rparr>
        \<lparr>errorMessage :=
           JString (case ErrorInstance ''network error'' of
                      ErrorInstance msg \<Rightarrow> msg | NonError \<Rightarrow> ''Agent failed''),
         state := Error\<rparr>
      \<and> steps (handleUpload runtime0
          (Resolves \<lparr>ok = True, json = None,
             body = Some \<lparr>chunks = [''event: step\<newline>data: {}\<newline>\<newline>event: st''],
                          ending = Some (ErrorInstance ''network error'')\<rparr>\<rparr>)
          ''report.pdf'' initial)
        = steps \<lparr>state = AgentRunning, file = Some ''report.pdf'', dragOver = False,
                  preferences = [], steps = [JObject [] :: int json], doneResult = JNull,
                  errorMessage = JString []\<rparr>)"
proof -
  have h: "uploadReportStreaming runtime0
      (Resolves \<lparr>ok = True, json = None,
         body = Some \<lparr>chunks = [''event: step\<newline>data: {}\<newline>\<newline>event: st''],
                      ending = Some (ErrorInstance ''network error'')\<rparr>\<rparr>)
      page_callbacks ((begin_attempt ''report.pdf'' initial)\<lparr>state := AgentRunning\<rparr>)
    = (\<lparr>state = AgentRunning, file = Some ''report.pdf'', dragOver = False, preferences = [],
         steps = [JObject []], doneResult = JNull, errorMessage = JString []\<rparr>,
       Some (ErrorInstance ''network error''))"
    by code_simp
  have imp: "uploadReportStreaming runtime0
      (Resolves \<lparr>ok = True, json = None,
         body = Some \<lparr>chunks = [''event: step\<newline>data: {}\<newline>\<newline>event: st''],
                      ending = Some (ErrorInstance ''network error'')\<rparr>\<rparr>)
      page_callbacks ((begin_attempt ''report.pdf'' initial)\<lparr>state := AgentRunning\<rparr>)
    = (\<lparr>state = AgentRunning, file = Some ''report.pdf'', dragOver = False, preferences = [],
         steps = [JObject []], doneResult = JNull, errorMessage = JString []\<rparr>,
       Some (ErrorInstance ''network error''))
   \<longrightarrow> (handleUpload runtime0
        (Resolves \<lparr>ok = True, json = None,
           body = Some \<lparr>chunks = [''event: step\<newline>data: {}\<newline>\<newline>event: st''],
                        ending = Some (ErrorInstance ''network error'')\<rparr>\<rparr>)
        ''report.pdf'' initial
      = \<lparr>state = AgentRunning, file = Some ''report.pdf'', dragOver = False, preferences = [],
         steps = [JObject []], doneResult = JNull, errorMessage = JString []\<rparr>
        \<lparr>errorMessage :=
           JString (case ErrorInstance ''network error'' of
                      ErrorInstance msg \<Rightarrow> msg | NonError \<Rightarrow> ''Agent failed''),
         state := Error\<rparr>
      \<and> steps (handleUpload runtime0
          (Resolves \<lparr>ok = True, json = None,
             body = Some \<lparr>chunks = [''event: step\<newline>data: {}\<newline>\<newline>event: st''],
                          ending = Some (ErrorInstance ''network error'')\<rparr>\<rparr>)
          ''report.pdf'' initial)
        = steps \<lparr>state = AgentRunning, file = Some ''report.pdf'', dragOver = False,
                  preferences = [], steps = [JObject [] :: int json], doneResult = JNull,
                  errorMessage = JString []\<rparr>)"
    using error_keeps_log[where rt = runtime0 and f = "''report.pdf''" and p = initial
        and fetch = "Resolves \<lparr>ok = True, json = None,
           body = Some \<lparr>chunks = [''event: step\<newline>data: {}\<newline>\<newline>event: st''],
                        ending = Some (ErrorInstance ''network error'')\<rparr>\<rparr>"
        and q = "\<lparr>state = AgentRunning, file = Some ''report.pdf'', dragOver = False,
          preferences = [], steps = [JObject []], doneResult = JNull, errorMessage = JString []\<rparr>"
        and err = "ErrorInstance ''network error''" and m = JNull and ?q0.0 = initial
        and ev = "[]"]
    by (elim conjE)
  from h mp[OF imp h] show ?thesis by (rule conjI)
qed

section \<open>Transport failures\<close>

lemma truthy_empty_string_form:
  assumes "\<forall>n. Number_toString rt n \<noteq> []" "truthy rt d" "ToString rt d = Some []"
  shows "\<exists>xs. d = JArray xs"
  using assms by (cases d) (auto split: if_splits)

lemma new_Error_message:
  assumes "\<forall>n. Number_toString rt n \<noteq> []" "truthy rt x"
  shows "\<exists>m. new_Error rt x = ErrorInstance m \<and> (m = [] \<longrightarrow> (\<exists>xs. x = JArray xs))
           \<and> (\<forall>d. x = JString d \<longrightarrow> m = d)"
proof (cases "ToString rt x")
  case None
  then show ?thesis by (auto simp: new_Error_def)
next
  case (Some m)
  then show ?thesis using truthy_empty_string_form[OF assms, of ] by (auto simp: new_Error_def)
qed

lemma or_default_truthy: "truthy rt (or_default rt d (JString ''Upload failed''))"
  by (cases d) auto

lemma uploadReportStreaming_not_ok_message:
  assumes "\<forall>n. Number_toString rt n \<noteq> []" "\<not> ok res"
  shows "\<exists>m. uploadReportStreaming rt (Resolves res) cb s = (s, Some (ErrorInstance m))
         \<and> (json res = None \<longrightarrow> m = ''Upload failed'')
         \<and> (json res = Some JNull \<longrightarrow> TypeError_null ''detail'' = ErrorInstance m)
         \<and> (\<forall>v. json res = Some v \<and> get_property v ''detail'' = Some None \<longrightarrow> m = ''Upload failed'')
         \<and> (\<forall>v d. json res = Some v \<and> get_property v ''detail'' = Some (Some d) \<and> \<not> truthy rt d
                \<longrightarrow> m = ''Upload failed'')
         \<and> (\<forall>v d t. json res = Some v \<and> get_property v ''detail'' = Some (Some d) \<and> truthy rt d
                \<and> ToString rt d = Some t \<longrightarrow> m = t)
         \<and> (\<forall>v d. json res = Some v \<and> get_property v ''detail'' = Some (Some d) \<and> truthy rt d
                \<and> ToString rt d = None \<longrightarrow> m = ''Cannot convert object to primitive value'')
         \<and> (\<forall>v d. json res = Some v \<and> get_property v ''detail'' = Some (Some (JString d))
                \<longrightarrow> m = (if d = [] then ''Upload failed'' else d))
         \<and> (m = [] \<longrightarrow> (\<exists>v xs. json res = Some v
                \<and> get_property v ''detail'' = Some (Some (JArray xs))))"
proof -
  define err :: "'a json" where
    "err = (case json res of None \<Rightarrow> JObject [(''detail'', JString ''Upload failed'')] | Some v \<Rightarrow> v)"
  show ?thesis
  proof (cases "get_property err ''detail''")
    case None
    then have n: "err = JNull" by (cases err) auto
    then have jn: "json res = Some JNull" by (cases "json res") (auto simp: err_def)
    obtain m where m: "TypeError_null ''detail'' = ErrorInstance m" "m \<noteq> []"
      by (simp add: TypeError_null_def)
    have "uploadReportStreaming rt (Resolves res) cb s = (s, Some (ErrorInstance m))"
      using assms(2) None m(1) by (simp add: uploadReportStreaming_def err_def)
    then show ?thesis using jn m by (intro exI[of _ m]) simp
  next
    case (Some d)
    let ?x = "or_default rt d (JString ''Upload failed'')"
    define m where "m = (case ToString rt ?x of None \<Rightarrow> ''Cannot convert object to primitive value'' | Some t \<Rightarrow> t)"
    have u: "uploadReportStreaming rt (Resolves res) cb s = (s, Some (ErrorInstance m))"
      using assms(2) Some by (simp add: uploadReportStreaming_def err_def new_Error_def m_def split: option.splits)
    have nn: "json res \<noteq> Some JNull" using Some by (auto simp: err_def)
    have a: "json res = None \<longrightarrow> m = ''Upload failed''"
      using Some by (auto simp: err_def m_def)
    have b: "\<forall>v. json res = Some v \<and> get_property v ''detail'' = Some None \<longrightarrow> m = ''Upload failed''"
      using Some by (auto simp: err_def m_def)
    have c: "\<forall>v d'. json res = Some v \<and> get_property v ''detail'' = Some (Some d') \<and> \<not> truthy rt d'
                \<longrightarrow> m = ''Upload failed''"
      using Some by (auto simp: err_def m_def)
    have c2: "\<forall>v d' t. json res = Some v \<and> get_property v ''detail'' = Some (Some d') \<and> truthy rt d'
                \<and> ToString rt d' = Some t \<longrightarrow> m = t"
      using Some by (auto simp: err_def m_def)
    have c3: "\<forall>v d'. json res = Some v \<and> get_property v ''detail'' = Some (Some d') \<and> truthy rt d'
                \<and> ToString rt d' = None \<longrightarrow> m = ''Cannot convert object to primitive value''"
      using Some by (auto simp: err_def m_def)
    have c4: "\<forall>v d'. json res = Some v \<and> get_property v ''detail'' = Some (Some (JString d'))
                \<longrightarrow> m = (if d' = [] then ''Upload failed'' else d')"
      using Some by (auto simp: err_def m_def)
    have e: "m = [] \<longrightarrow> (\<exists>v xs. json res = Some v
                \<and> get_property v ''detail'' = Some (Some (JArray xs)))"
    proof
      assume "m = []"
      then have "ToString rt ?x = Some []" by (simp add: m_def split: option.splits)
      then obtain xs where xs: "?x = JArray xs"
        using truthy_empty_string_form[OF assms(1) or_default_truthy[of rt d]] by blast
      then have "d = Some (JArray xs)" by (cases d) (auto split: if_splits)
      with Some show "\<exists>v xs. json res = Some v \<and> get_property v ''detail'' = Some (Some (JArray xs))"
        by (cases "json res") (auto simp: err_def)
    qed
    show ?thesis
      using u nn a b c c2 c3 c4 e by (intro exI[of _ m]) simp
  qed
qed

text \<open>
  Claim C6, as amended. When the response has a non-success status, or a success status
  and no readable body, the attempt ends in the error state with an empty progress log.
  The message is \<^verbatim>\<open>Streaming not supported\<close> for the unreadable body. For the
  non-success status it is \<^verbatim>\<open>Upload failed\<close> when the body is not JSON or its
  \<^verbatim>\<open>detail\<close> is absent or falsy (null, false, a falsy number, the empty string); when
  the detail is truthy it is the string form of the detail (the detail itself when that
  is a string), or the message of the TypeError when the conversion throws; when the body
  is the JSON value null it is the message of the TypeError of reading a property of
  null. The message is non-empty except when the detail is an array whose string form is
  empty. (Numbers are assumed to have a non-empty string form.)
\<close>

theorem transport_failure:
  assumes "\<forall>n. Number_toString rt n \<noteq> []" and "\<not> ok res \<or> body res = None"
  shows "\<exists>m. handleUpload rt (Resolves res) f p =
           (begin_attempt f p)\<lparr>errorMessage := JString m, state := Error\<rparr>
         \<and> state (handleUpload rt (Resolves res) f p) = Error
         \<and> steps (handleUpload rt (Resolves res) f p) = []
         \<and> (ok res \<longrightarrow> m = ''Streaming not supported'')
         \<and> (\<not> ok res \<and> json res = None \<longrightarrow> m = ''Upload failed'')
         \<and> (\<forall>v. \<not> ok res \<and> json res = Some v \<and> get_property v ''detail'' = Some None
                \<longrightarrow> m = ''Upload failed'')
         \<and> (\<forall>v d. \<not> ok res \<and> json res = Some v \<and> get_property v ''detail'' = Some (Some (JString d))
                \<longrightarrow> m = (if d = [] then ''Upload failed'' else d))
         \<and> (m = [] \<longrightarrow> \<not> ok res \<and> (\<exists>v xs. json res = Some v
                \<and> get_property v ''detail'' = Some (Some (JArray xs))))
         \<and> (\<not> ok res \<and> json res = Some JNull \<longrightarrow> TypeError_null ''detail'' = ErrorInstance m)
         \<and> (\<forall>v d. \<not> ok res \<and> json res = Some v \<and> get_property v ''detail'' = Some (Some d)
                \<and> \<not> truthy rt d \<longrightarrow> m = ''Upload failed'')
         \<and> (\<forall>v d t. \<not> ok res \<and> json res = Some v \<and> get_property v ''detail'' = Some (Some d)
                \<and> truthy rt d \<and> ToString rt d = Some t \<longrightarrow> m = t)
         \<and> (\<forall>v d. \<not> ok res \<and> json res = Some v \<and> get_property v ''detail'' = Some (Some d)
                \<and> truthy rt d \<and> ToString rt d = None
                \<longrightarrow> m = ''Cannot convert object to primitive value'')"
proof (cases "ok res")
  case True
  with assms(2) have "body res = None" by simp
  with True have "uploadReportStreaming rt (Resolves res) page_callbacks
      ((begin_attempt f p)\<lparr>state := AgentRunning\<rparr>)
    = ((begin_attempt f p)\<lparr>state := AgentRunning\<rparr>, Some (ErrorInstance ''Streaming not supported''))"
    by (simp add: uploadReportStreaming_def)
  then have hu: "handleUpload rt (Resolves res) f p =
      (begin_attempt f p)\<lparr>errorMessage := JString ''Streaming not supported'', state := Error\<rparr>"
    by (simp add: handleUpload_def)
  show ?thesis
    using True by (intro exI[of _ "''Streaming not supported''"]) (simp add: hu begin_attempt_def)
next
  case False
  obtain m where m0: "uploadReportStreaming rt (Resolves res) page_callbacks
      ((begin_attempt f p)\<lparr>state := AgentRunning\<rparr>)
    = ((begin_attempt f p)\<lparr>state := AgentRunning\<rparr>, Some (ErrorInstance m))
    \<and> (json res = None \<longrightarrow> m = ''Upload failed'')
    \<and> (json res = Some JNull \<longrightarrow> TypeError_null ''detail'' = ErrorInstance m)
    \<and> (\<forall>v. json res = Some v \<and> get_property v ''detail'' = Some None \<longrightarrow> m = ''Upload failed'')
    \<and> (\<forall>v d. json res = Some v \<and> get_property v ''detail'' = Some (Some d) \<and> \<not> truthy rt d
                \<longrightarrow> m = ''Upload failed'')
    \<and> (\<forall>v d t. json res = Some v \<and> get_property v ''detail'' = Some (Some d) \<and> truthy rt d
                \<and> ToString rt d = Some t \<longrightarrow> m = t)
    \<and> (\<forall>v d. json res = Some v \<and> get_property v ''detail'' = Some (Some d) \<and> truthy rt d
                \<and> ToString rt d = None \<longrightarrow> m = ''Cannot convert object to primitive value'')
    \<and> (\<forall>v d. json res = Some v \<and> get_property v ''detail'' = Some (Some (JString d))
                \<longrightarrow> m = (if d = [] then ''Upload failed'' else d))
    \<and> (m = [] \<longrightarrow> (\<exists>v xs. json res = Some v \<and> get_property v ''detail'' = Some (Some (JArray xs))))"
    using uploadReportStreaming_not_ok_message[OF assms(1) False, of page_callbacks
        "(begin_attempt f p)\<lparr>state := AgentRunning\<rparr>"] by (rule exE)
  have hu: "handleUpload rt (Resolves res) f p =
      (begin_attempt f p)\<lparr>errorMessage := JString m, state := Error\<rparr>"
    using m0 by (simp add: handleUpload_def)
  have rest: "(json res = None \<longrightarrow> m = ''Upload failed'')
    \<and> (json res = Some JNull \<longrightarrow> TypeError_null ''detail'' = ErrorInstance m)
    \<and> (\<forall>v. json res = Some v \<and> get_property v ''detail'' = Some None \<longrightarrow> m = ''Upload failed'')
    \<and> (\<forall>v d. json res = Some v \<and> get_property v ''detail'' = Some (Some d) \<and> \<not> truthy rt d
                \<longrightarrow> m = ''Upload failed'')
    \<and> (\<forall>v d t. json res = Some v \<and> get_property v ''detail'' = Some (Some d) \<and> truthy rt d
                \<and> ToString rt d = Some t \<longrightarrow> m = t)
    \<and> (\<forall>v d. json res = Some v \<and> get_property v ''detail'' = Some (Some d) \<and> truthy rt d
                \<and> ToString rt d = None \<longrightarrow> m = ''Cannot convert object to primitive value'')
    \<and> (\<forall>v d. json res = Some v \<and> get_property v ''detail'' = Some (Some (JString d))
                \<longrightarrow> m = (if d = [] then ''Upload failed'' else d))
    \<and> (m = [] \<longrightarrow> (\<exists>v xs. json res = Some v \<and> get_property v ''detail'' = Some (Some (JArray xs))))"
    using m0 by (rule conjunct2)
  have g2: "state (handleUpload rt (Resolves res) f p) = Error" by (simp add: hu)
  have g3: "steps (handleUpload rt (Resolves res) f p) = []" by (simp add: hu begin_attempt_def)
  have g4: "(ok res \<longrightarrow> m = ''Streaming not supported'')
         \<and> (\<not> ok res \<and> json res = None \<longrightarrow> m = ''Upload failed'')
         \<and> (\<forall>v. \<not> ok res \<and> json res = Some v \<and> get_property v ''detail'' = Some None
                \<longrightarrow> m = ''Upload failed'')
         \<and> (\<forall>v d. \<not> ok res \<and> json res = Some v \<and> get_property v ''detail'' = Some (Some (JString d))
                \<longrightarrow> m = (if d = [] then ''Upload failed'' else d))
         \<and> (m = [] \<longrightarrow> \<not> ok res \<and> (\<exists>v xs. json res = Some v
                \<and> get_property v ''detail'' = Some (Some (JArray xs))))
         \<and> (\<not> ok res \<and> json res = Some JNull \<longrightarrow> TypeError_null ''detail'' = ErrorInstance m)
         \<and> (\<forall>v d. \<not> ok res \<and> json res = Some v \<and> get_property v ''detail'' = Some (Some d)
                \<and> \<not> truthy rt d \<longrightarrow> m = ''Upload failed'')
         \<and> (\<forall>v d t. \<not> ok res \<and> json res = Some v \<and> get_property v ''detail'' = Some (Some d)
                \<and> truthy rt d \<and> ToString rt d = Some t \<longrightarrow> m = t)
         \<and> (\<forall>v d. \<not> ok res \<and> json res = Some v \<and> get_property v ''detail'' = Some (Some d)
                \<and> truthy rt d \<and> ToString rt d = None
                \<longrightarrow> m = ''Cannot convert object to primitive value'')"
    using False rest by blast
  show ?thesis
    by (rule exI[of _ m], rule conjI[OF hu conjI[OF g2 conjI[OF g3 g4]]])
qed

lemma show_nat_nonempty: "show_nat n \<noteq> []"
  by (subst show_nat.simps) (simp del: show_nat.simps)

lemma runtime0_numbers: "\<forall>n. Number_toString runtime0 n \<noteq> []"
  by (simp add: runtime0_def show_int_def show_nat_nonempty)

theorem transport_failure_witness:
  "((\<forall>n. Number_toString runtime0 n \<noteq> [])
    \<and> \<not> ok (\<lparr>ok = False,
                 json = Some (JObject [(''detail'', JString ''Only PDF files are accepted'')]),
                 body = None\<rparr> :: int response))
   \<and> handleUpload runtime0
        (Resolves \<lparr>ok = False, json = Some (JObject [(''detail'', JString ''Only PDF files are accepted'')]),
                   body = None\<rparr>)
        ''report.pdf'' initial
      = \<lparr>state = Error, file = Some ''report.pdf'', dragOver = False, preferences = [],
         steps = [], doneResult = JNull, errorMessage = JString ''Only PDF files are accepted''\<rparr>"
proof -
  let ?res = "\<lparr>ok = False, json = Some (JObject [(''detail'', JString ''Only PDF files are accepted'')]),
               body = None\<rparr> :: int response"
  have h1: "\<forall>n. Number_toString runtime0 n \<noteq> []" by (rule runtime0_numbers)
  have h2: "\<not> ok ?res \<or> body ?res = None" by simp
  obtain m where m: "handleUpload runtime0 (Resolves ?res) ''report.pdf'' initial =
           (begin_attempt ''report.pdf'' initial)\<lparr>errorMessage := JString m, state := Error\<rparr>"
    and d: "\<forall>v d. \<not> ok ?res \<and> json ?res = Some v
              \<and> get_property v ''detail'' = Some (Some (JString d))
                \<longrightarrow> m = (if d = [] then ''Upload failed'' else d)"
    using transport_failure[OF h1 h2, of "''report.pdf''" initial] by (elim exE conjE)
  have "m = ''Only PDF files are accepted''"
    using d[rule_format, of "JObject [(''detail'', JString ''Only PDF files are accepted'')]"
        "''Only PDF files are accepted''"] by simp
  with m have r: "handleUpload runtime0 (Resolves ?res) ''report.pdf'' initial
      = \<lparr>state = Error, file = Some ''report.pdf'', dragOver = False, preferences = [],
         steps = [], doneResult = JNull, errorMessage = JString ''Only PDF files are accepted''\<rparr>"
    by (simp add: begin_attempt_def initial_def)
  have nok: "\<not> ok ?res" by simp
  show ?thesis
    apply (intro conjI)
      apply (rule h1)
     apply (rule nok)
    apply (rule r)
    done
qed

text \<open>
  The claim as first stated fails when the detail of the failed response is the empty
  array: it is truthy, so the fallback is not taken, and its string form is empty, so
  the attempt ends in the error state with an empty message.
\<close>

theorem empty_detail_counterexample:
  "handleUpload runtime0
     (Resolves \<lparr>ok = False, json = Some (JObject [(''detail'', JArray [])]), body = None\<rparr>)
     ''report.pdf'' initial
   = \<lparr>state = Error, file = Some ''report.pdf'', dragOver = False, preferences = [],
      steps = [], doneResult = JNull, errorMessage = JString []\<rparr>"
  by code_simp

text \<open>Falsy and other non-string details, evaluated.\<close>

lemma falsy_detail_examples:
  "errorMessage (handleUpload runtime0
     (Resolves \<lparr>ok = False, json = Some (JObject [(''detail'', JNumber 0)]), body = None\<rparr>)
     ''report.pdf'' initial) = JString ''Upload failed''
   \<and> errorMessage (handleUpload runtime0
     (Resolves \<lparr>ok = False, json = Some (JObject [(''detail'', JBool False)]), body = None\<rparr>)
     ''report.pdf'' initial) = JString ''Upload failed''
   \<and> errorMessage (handleUpload runtime0
     (Resolves \<lparr>ok = False, json = Some (JObject [(''detail'', JNull)]), body = None\<rparr>)
     ''report.pdf'' initial) = JString ''Upload failed''
   \<and> errorMessage (handleUpload runtime0
     (Resolves \<lparr>ok = False, json = Some (JObject [(''detail'', JNumber 422)]), body = None\<rparr>)
     ''report.pdf'' initial) = JString ''422''
   \<and> errorMessage (handleUpload runtime0
     (Resolves \<lparr>ok = False, json = Some (JObject [(''detail'', JArray [JObject [(''msg'', JString ''x'')]])]),
        body = None\<rparr>)
     ''report.pdf'' initial) = JString ''[object Object]''
   \<and> errorMessage (handleUpload runtime0
     (Resolves \<lparr>ok = False, json = Some (JObject [(''detail'', JObject [(''toString'', JNull)])]),
        body = None\<rparr>)
     ''report.pdf'' initial) = JString ''Cannot convert object to primitive value''
   \<and> errorMessage (handleUpload runtime0
     (Resolves \<lparr>ok = False, json = Some JNull, body = None\<rparr>)
     ''report.pdf'' initial)
     = JString (''Cannot read properties of null (reading '' @ [CHR 0x27] @ ''detail'' @ [CHR 0x27] @ '')'')"
  by code_simp

section \<open>The scenarios of the specification\<close>

text \<open>
  The five scenarios that the specification lists, run on the model: two frames in two
  chunks; the same text cut in the middle of a frame; a frame that is not JSON before a
  done frame; a non-success status; an error frame with an empty payload.
\<close>

lemma scenario_A:
  \<open>handleUpload runtime0
     (streamed
       [''event: step\<newline>data: {"step_number":1,"action":"reasoning","tool_name":null,"reasoning":"r","result_summary":"s"}\<newline>\<newline>'',
        ''event: done\<newline>data: {"report_id":"abc","deficiency_count":2,"biomarker_count":10,"recommendation_count":4}\<newline>\<newline>''])
     ''report.pdf'' initial
   = \<lparr>state = Done, file = Some ''report.pdf'', dragOver = False, preferences = [],
      steps = [JObject [(''step_number'', JNumber 1), (''action'', JString ''reasoning''),
                        (''tool_name'', JNull), (''reasoning'', JString ''r''),
                        (''result_summary'', JString ''s'')]],
      doneResult = JObject [(''report_id'', JString ''abc''), (''deficiency_count'', JNumber 2),
                            (''biomarker_count'', JNumber 10), (''recommendation_count'', JNumber 4)],
      errorMessage = JString []\<rparr>\<close>
  by code_simp

lemma scenario_B:
  \<open>handleUpload runtime0
     (streamed
       [''event: st'',
        ''ep\<newline>data: {"step_number":1,"action":"reasoning","tool_name":null,"reasoning":"r","result_summary":"s"}\<newline>'',
        ''\<newline>event: done\<newline>data: {"report_id":"abc","deficiency_count":2,"biomarker_count":10,"recommendation_count":4}\<newline>\<newline>''])
     ''report.pdf'' initial
   = handleUpload runtime0
     (streamed
       [''event: step\<newline>data: {"step_number":1,"action":"reasoning","tool_name":null,"reasoning":"r","result_summary":"s"}\<newline>\<newline>'',
        ''event: done\<newline>data: {"report_id":"abc","deficiency_count":2,"biomarker_count":10,"recommendation_count":4}\<newline>\<newline>''])
     ''report.pdf'' initial\<close>
  by code_simp

lemma scenario_C:
  \<open>handleUpload runtime0
     (streamed
       [''event: step\<newline>data: not-json\<newline>\<newline>'',
        ''event: done\<newline>data: {"report_id":"abc","deficiency_count":2,"biomarker_count":10,"recommendation_count":4}\<newline>\<newline>''])
     ''report.pdf'' initial
   = \<lparr>state = Done, file = Some ''report.pdf'', dragOver = False, preferences = [],
      steps = [],
      doneResult = JObject [(''report_id'', JString ''abc''), (''deficiency_count'', JNumber 2),
                            (''biomarker_count'', JNumber 10), (''recommendation_count'', JNumber 4)],
      errorMessage = JString []\<rparr>\<close>
  by code_simp

lemma scenario_D:
  "handleUpload runtime0 (Resolves \<lparr>ok = False, json = None, body = None\<rparr>) ''report.pdf'' initial
   = \<lparr>state = Error, file = Some ''report.pdf'', dragOver = False, preferences = [],
      steps = [], doneResult = JNull, errorMessage = JString ''Upload failed''\<rparr>"
  by code_simp

lemma scenario_E:
  "handleUpload runtime0 (streamed [''event: error\<newline>data: {}\<newline>\<newline>'']) ''report.pdf'' initial
   = \<lparr>state = Error, file = Some ''report.pdf'', dragOver = False, preferences = [],
      steps = [], doneResult = JNull, errorMessage = JString ''Unknown error''\<rparr>"
  by code_simp

end
